theory Spec2Isabelle
  imports Complex_Main "HOL-Library.Word"
begin

section \<open>Data model of rtsp-stream.js\<close>

text \<open>
  The server keeps its state in module-level variables (lines 30 and 50--60 of
  rtsp-stream.js). They become the fields of one record that every function takes
  and returns. Socket ids are strings, a frame is the byte buffer the decoder emits.
\<close>

type_synonym clientId = string
type_synonym frame = "8 word list"

datatype json = JNull | JBool bool | JNum int | JStr string | JArr "json list"

text \<open>
  The configuration object, with the fields typed as \<^verbatim>\<open>RTSPConfig\<close> of
  rtsp-stream.d.ts declares them. The code never checks the keys of an update, so keys
  outside the schema are kept too: \<open>extras\<close> holds them.
\<close>

record config =
  rtspUrl :: string
  transport :: string
  frameRate :: int
  resolution :: string
  quality :: int
  port :: int
  ffmpegOptions :: "string list"
  extras :: "string \<rightharpoonup> json"

text \<open>An update is a \<^verbatim>\<open>Partial<RTSPConfig>\<close>: each schema key present or absent.\<close>

record configUpdate =
  new_rtspUrl :: "string option"
  new_transport :: "string option"
  new_frameRate :: "int option"
  new_resolution :: "string option"
  new_quality :: "int option"
  new_port :: "int option"
  new_ffmpegOptions :: "string list option"
  new_extras :: "string \<rightharpoonup> json"

text \<open>The options object handed to \<^verbatim>\<open>new rtspFFmpeg.FFMpeg\<close> (lines 87--93).\<close>

record ffmpegParams =
  p_input :: string
  p_rate :: int
  p_resolution :: string
  p_quality :: int
  p_arguments :: "string list"

text \<open>
  The FFMpeg object is an external library. The model keeps what the calls of this
  program determine: which instance it is, what it was built from, whether the handlers
  of \<^verbatim>\<open>createStream\<close> are attached, and whether it runs (a \<^verbatim>\<open>start\<close> that
  returns sets it running; a \<^verbatim>\<open>stop\<close> that returns, and an error it reports, end that).
\<close>

record source =
  src_id :: nat
  src_params :: ffmpegParams
  listening :: bool
  running :: bool

record streamError =
  message :: string
  code :: "string option"

record stats =
  st_activeClients :: nat
  st_frameCount :: nat
  st_totalFrames :: nat
  currentFps :: int
  uptime :: int
  isActive :: bool
  st_config :: config

datatype response =
    ConfigBody config
  | UpdateOk config
  | UpdateFailed string
  | StatsBody stats

text \<open>
  Everything the server does to the outside, in the order it does it: calls on the
  FFMpeg instance, messages to sockets, HTTP responses. Console output is left out.
\<close>

datatype effect =
    NewFFMpeg nat ffmpegParams
  | RemoveAllListeners nat
  | Stop nat
  | Start nat
  | IoConfig config
  | IoStatus string
  | IoStreamError string string
  | SocketConfig clientId config
  | SocketError clientId string
  | VolatileStream clientId frame
  | ResJson nat response

text \<open>Callbacks handed to \<^verbatim>\<open>setTimeout\<close> and \<^verbatim>\<open>setInterval\<close>, with their due time.\<close>

datatype action =
    ResetCounters
  | Restart
  | Batch nat "clientId list list" frame
  | StatusReady

type_synonym timer = "int \<times> action"

record server =
  activeConfig :: config
  stream :: "source option"
  activeClients :: "clientId list"
  frameCount :: nat
  totalFrames :: nat
  lastFrameTime :: int
  lastCounterReset :: int
  frameQueues :: "clientId \<rightharpoonup> frame list"
  sockets :: "clientId \<rightharpoonup> bool"
  timers :: "timer list"
  clock :: int
  instances :: nat
  calls :: nat
  effects :: "effect list"

text \<open>
  \<open>activeClients\<close> is a JavaScript \<^verbatim>\<open>Set\<close>: it iterates in insertion order and holds
  no id twice. \<open>sockets\<close> is \<^verbatim>\<open>io.sockets.sockets\<close> with each socket's
  \<^verbatim>\<open>connected\<close> flag, \<open>clock\<close> is \<^verbatim>\<open>Date.now()\<close> in milliseconds.

  The constructor, \<^verbatim>\<open>start\<close> and \<^verbatim>\<open>stop\<close> of the library may throw; the code wraps
  \<^verbatim>\<open>start\<close> and \<^verbatim>\<open>stop\<close> in try/catch. Which call throws is the environment's choice: a
  function from the number of the call (\<open>calls\<close> counts them) to the message of the
  exception, if any. \<^verbatim>\<open>removeAllListeners\<close> and \<^verbatim>\<open>on\<close> are taken not to throw.
\<close>

type_synonym faults = "nat \<Rightarrow> string option"

definition MAX_QUEUE_SIZE :: nat where
  "MAX_QUEUE_SIZE = 3"

definition MAX_CLIENTS_PER_FRAME :: nat where
  "MAX_CLIENTS_PER_FRAME = 10"

definition defaultConfig :: config where
  "defaultConfig =
     \<lparr> rtspUrl = ''rtsp://your-rtsp-url'', transport = ''udp'', frameRate = 15,
       resolution = ''640x360'', quality = 3, port = 3000,
       ffmpegOptions = [''-fflags'', ''nobuffer'', ''-flags'', ''low_delay''],
       extras = Map.empty \<rparr>"

definition set_add :: "clientId \<Rightarrow> clientId list \<Rightarrow> clientId list" where
  "set_add c cs = (if c \<in> set cs then cs else cs @ [c])"

definition set_delete :: "clientId \<Rightarrow> clientId list \<Rightarrow> clientId list" where
  "set_delete c cs = filter (\<lambda>x. x \<noteq> c) cs"

definition setTimeout :: "action \<Rightarrow> int \<Rightarrow> server \<Rightarrow> server" where
  "setTimeout a delay s = s\<lparr>timers := timers s @ [(clock s + delay, a)]\<rparr>"

definition emit :: "effect \<Rightarrow> server \<Rightarrow> server" where
  "emit e s = s\<lparr>effects := effects s @ [e]\<rparr>"

section \<open>Stream functions\<close>

text \<open>\<^verbatim>\<open>stream.stop()\<close> and \<^verbatim>\<open>stream.start()\<close> inside their try/catch: an exception is
  logged to the console and goes no further.\<close>

definition stop_call :: "faults \<Rightarrow> server \<Rightarrow> server" where
  "stop_call flt s =
     (case stream s of
        None \<Rightarrow> s
      | Some src \<Rightarrow>
          s\<lparr>stream := Some (if flt (calls s) = None then src\<lparr>running := False\<rparr> else src),
            calls := calls s + 1,
            effects := effects s @ [Stop (src_id src)]\<rparr>)"

definition start_call :: "faults \<Rightarrow> server \<Rightarrow> server" where
  "start_call flt s =
     (case stream s of
        None \<Rightarrow> s
      | Some src \<Rightarrow>
          s\<lparr>stream := Some (if flt (calls s) = None then src\<lparr>running := True\<rparr> else src),
            calls := calls s + 1,
            effects := effects s @ [Start (src_id src)]\<rparr>)"

definition ffmpegParamsOf :: "config \<Rightarrow> ffmpegParams" where
  "ffmpegParamsOf cfg =
     \<lparr> p_input = rtspUrl cfg, p_rate = frameRate cfg, p_resolution = resolution cfg,
       p_quality = quality cfg,
       p_arguments = [''-rtsp_transport'', transport cfg] @ ffmpegOptions cfg \<rparr>"

text \<open>
  \<^verbatim>\<open>createStream\<close> (lines 70--149). The old instance loses its listeners and is stopped,
  errors swallowed; then the constructor runs. If it throws, the exception leaves the
  function (\<open>Some msg\<close>) with the old instance still in \<open>stream\<close>.
\<close>

definition createStream :: "faults \<Rightarrow> config \<Rightarrow> server \<Rightarrow> string option \<times> server" where
  "createStream flt cfg s =
     (let s1 = (case stream s of
                  None \<Rightarrow> s
                | Some src \<Rightarrow>
                    stop_call flt
                      (emit (RemoveAllListeners (src_id src))
                        (s\<lparr>stream := Some (src\<lparr>listening := False\<rparr>)\<rparr>)))
      in case flt (calls s1) of
           Some msg \<Rightarrow> (Some msg, s1\<lparr>calls := calls s1 + 1\<rparr>)
         | None \<Rightarrow>
             (None,
              s1\<lparr>stream := Some \<lparr> src_id = instances s1, src_params = ffmpegParamsOf cfg,
                                  listening = True, running = False \<rparr>,
                 instances := instances s1 + 1,
                 calls := calls s1 + 1,
                 effects := effects s1 @ [NewFFMpeg (instances s1) (ffmpegParamsOf cfg)]\<rparr>))"

text \<open>\<^verbatim>\<open>queueFrameForClient\<close> (lines 198--226): push, trim to \<open>MAX_QUEUE_SIZE\<close> with
  \<^verbatim>\<open>splice\<close>, then \<^verbatim>\<open>pop\<close> the newest, empty the queue and send.\<close>

definition queueFrameForClient :: "clientId \<Rightarrow> frame \<Rightarrow> server \<Rightarrow> server" where
  "queueFrameForClient c f s =
     (if sockets s c \<noteq> Some True then s
      else
        let q0 = (case frameQueues s c of None \<Rightarrow> [] | Some q \<Rightarrow> q);
            q1 = q0 @ [f];
            q2 = (if length q1 > MAX_QUEUE_SIZE
                  then drop (length q1 - MAX_QUEUE_SIZE) q1 else q1)
        in if length q2 > 0 \<and> sockets s c = Some True
           then s\<lparr>frameQueues := (frameQueues s)(c \<mapsto> []),
                  effects := effects s @ [VolatileStream c (last q2)]\<rparr>
           else s\<lparr>frameQueues := (frameQueues s)(c \<mapsto> q2)\<rparr>)"

text \<open>\<^verbatim>\<open>processClientBatch\<close> (lines 179--195).\<close>

definition processClientBatch :: "nat \<Rightarrow> clientId list list \<Rightarrow> frame \<Rightarrow> server \<Rightarrow> server" where
  "processClientBatch batchIndex clientBatches f s =
     (if batchIndex \<ge> length clientBatches then s
      else
        let s1 = foldl (\<lambda>st c. queueFrameForClient c f st) s (clientBatches ! batchIndex)
        in if batchIndex + 1 < length clientBatches
           then setTimeout (Batch (batchIndex + 1) clientBatches f) 5 s1
           else s1)"

text \<open>The loop of \<^verbatim>\<open>handleNewFrame\<close> that groups the client ids (lines 158--172):
  \<open>cur\<close> is \<^verbatim>\<open>currentBatch\<close>, \<open>acc\<close> is \<^verbatim>\<open>clientBatches\<close>.\<close>

fun batchLoop :: "clientId list \<Rightarrow> clientId list \<Rightarrow> clientId list list
    \<Rightarrow> clientId list list \<times> clientId list" where
  "batchLoop [] cur acc = (acc, cur)"
| "batchLoop (c # cs) cur acc =
     (if length (cur @ [c]) \<ge> MAX_CLIENTS_PER_FRAME
      then batchLoop cs [] (acc @ [cur @ [c]])
      else batchLoop cs (cur @ [c]) acc)"

definition clientBatches :: "clientId list \<Rightarrow> clientId list list" where
  "clientBatches cs =
     (case batchLoop cs [] [] of
        (acc, cur) \<Rightarrow> if length cur > 0 then acc @ [cur] else acc)"

definition handleNewFrame :: "frame \<Rightarrow> server \<Rightarrow> server" where
  "handleNewFrame f s =
     processClientBatch 0 (clientBatches (activeClients s)) f
       (s\<lparr>totalFrames := totalFrames s + 1,
          frameCount := frameCount s + 1,
          lastFrameTime := clock s\<rparr>)"

text \<open>\<^verbatim>\<open>startStreamIfNeeded\<close> (lines 229--241) and \<^verbatim>\<open>stopStreamIfNoClients\<close>
  (lines 244--253).\<close>

definition startStreamIfNeeded :: "faults \<Rightarrow> server \<Rightarrow> string option \<times> server" where
  "startStreamIfNeeded flt s =
     (if length (activeClients s) > 0 then
        (case (if stream s = None then createStream flt (activeConfig s) s else (None, s)) of
           (Some msg, s1) \<Rightarrow> (Some msg, s1)
         | (None, s1) \<Rightarrow> (None, start_call flt s1))
      else (None, s))"

definition stopStreamIfNoClients :: "faults \<Rightarrow> server \<Rightarrow> server" where
  "stopStreamIfNoClients flt s =
     (if length (activeClients s) = 0 \<and> stream s \<noteq> None then stop_call flt s else s)"

text \<open>The object spread \<^verbatim>\<open>{ ...activeConfig, ...newConfig }\<close>: a key of the update wins.\<close>

definition mergeConfig :: "config \<Rightarrow> configUpdate \<Rightarrow> config" where
  "mergeConfig old u =
     \<lparr> rtspUrl = (case new_rtspUrl u of Some v \<Rightarrow> v | None \<Rightarrow> rtspUrl old),
       transport = (case new_transport u of Some v \<Rightarrow> v | None \<Rightarrow> transport old),
       frameRate = (case new_frameRate u of Some v \<Rightarrow> v | None \<Rightarrow> frameRate old),
       resolution = (case new_resolution u of Some v \<Rightarrow> v | None \<Rightarrow> resolution old),
       quality = (case new_quality u of Some v \<Rightarrow> v | None \<Rightarrow> quality old),
       port = (case new_port u of Some v \<Rightarrow> v | None \<Rightarrow> port old),
       ffmpegOptions = (case new_ffmpegOptions u of Some v \<Rightarrow> v | None \<Rightarrow> ffmpegOptions old),
       extras = extras old ++ new_extras u \<rparr>"

text \<open>\<^verbatim>\<open>updateStreamConfig\<close> (lines 256--267). \<open>Inl msg\<close> is an exception leaving the
  function, \<open>Inr cfg\<close> the returned configuration.\<close>

definition updateStreamConfig :: "faults \<Rightarrow> configUpdate \<Rightarrow> server \<Rightarrow> (string + config) \<times> server" where
  "updateStreamConfig flt newConfig s =
     (let s1 = s\<lparr>activeConfig := mergeConfig (activeConfig s) newConfig\<rparr>
      in case createStream flt (activeConfig s1) s1 of
           (Some msg, s2) \<Rightarrow> (Inl msg, s2)
         | (None, s2) \<Rightarrow>
             (case startStreamIfNeeded flt s2 of
                (Some msg, s3) \<Rightarrow> (Inl msg, s3)
              | (None, s3) \<Rightarrow> (Inr (activeConfig s3), s3)))"

text \<open>
  \<^verbatim>\<open>getStreamStats\<close> (lines 270--295). JavaScript numbers are modelled by exact
  rationals; \<^verbatim>\<open>Math.round\<close> rounds to the nearest integer, a half upwards.
\<close>

definition Math_round :: "rat \<Rightarrow> int" where
  "Math_round x = \<lfloor>x + 1 / 2\<rfloor>"

definition getStreamStats :: "server \<Rightarrow> stats" where
  "getStreamStats s =
     (let now = clock s;
          secondsElapsed = (of_int (now - lastFrameTime s) :: rat) / 1000;
          up = (if stream s \<noteq> None
                then Math_round (of_int (now - lastCounterReset s) / 1000) else 0);
          fps = (if frameCount s > 0 \<and> secondsElapsed < 5 then
                   let timeSinceReset = (of_int (now - lastCounterReset s) :: rat) / 1000;
                       measured = Math_round (of_nat (frameCount s) / max 1 timeSinceReset);
                       maxConfigFps = (if frameRate (activeConfig s) \<noteq> 0
                                       then frameRate (activeConfig s) else 30)
                   in min measured maxConfigFps
                 else 0)
      in \<lparr> st_activeClients = length (activeClients s),
           st_frameCount = frameCount s,
           st_totalFrames = totalFrames s,
           currentFps = fps,
           uptime = up,
           isActive = (stream s \<noteq> None \<and> length (activeClients s) > 0 \<and> secondsElapsed < 5),
           st_config = activeConfig s \<rparr>)"

section \<open>Event handlers\<close>

text \<open>\<^verbatim>\<open>String.prototype.includes\<close>.\<close>

fun str_includes :: "string \<Rightarrow> string \<Rightarrow> bool" where
  "str_includes [] sub = (sub = [])"
| "str_includes (c # cs) sub = (take (length sub) (c # cs) = sub \<or> str_includes cs sub)"

definition errorMessageFor :: "string \<Rightarrow> string" where
  "errorMessageFor msg =
     (if str_includes msg ''Connection refused''
        then ''Failed to connect to RTSP stream: Connection refused''
      else if str_includes msg ''Invalid data''
        then ''Invalid RTSP stream URL or stream not accessible''
      else if str_includes msg ''timeout''
        then ''Stream connection timed out''
      else ''Stream error occurred'')"

text \<open>The handler of the stream's \<^verbatim>\<open>error\<close> event (lines 111--146).\<close>

definition onStreamError :: "streamError \<Rightarrow> server \<Rightarrow> server" where
  "onStreamError err s =
     (let s1 = emit (IoStreamError (errorMessageFor (message err))
                       (case code err of
                          None \<Rightarrow> ''STREAM_ERROR''
                        | Some c \<Rightarrow> if c = [] then ''STREAM_ERROR'' else c)) s
      in if length (activeClients s1) > 0 then setTimeout Restart 5000 s1 else s1)"

text \<open>The callback of that timer (lines 132--144).\<close>

definition restartCallback :: "faults \<Rightarrow> server \<Rightarrow> server" where
  "restartCallback flt s =
     (if length (activeClients s) > 0 then
        (case startStreamIfNeeded flt s of
           (None, s1) \<Rightarrow> s1
         | (Some msg, s1) \<Rightarrow> emit (IoStreamError ''Failed to restart stream'' ''RESTART_FAILED'') s1)
      else s)"

text \<open>The handlers of the stream's \<^verbatim>\<open>start\<close> and \<^verbatim>\<open>stop\<close> events (lines 99--108).\<close>

definition onStreamStart :: "server \<Rightarrow> server" where
  "onStreamStart s = emit (IoStatus ''started'') (s\<lparr>lastFrameTime := clock s\<rparr>)"

definition onStreamStop :: "server \<Rightarrow> server" where
  "onStreamStop s = emit (IoStatus ''stopped'') s"

text \<open>The interval callback of lines 63--66.\<close>

definition resetCounters :: "server \<Rightarrow> server" where
  "resetCounters s = s\<lparr>frameCount := 0, lastCounterReset := clock s\<rparr>"

text \<open>
  \<^verbatim>\<open>io.on('connection')\<close> (lines 814--824). The stream exists from startup on, so
  \<^verbatim>\<open>startStreamIfNeeded\<close> does not construct one here and no exception can leave it
  (\<open>stream_exists\<close> below); the handler has no catch of its own.
\<close>

definition onConnection :: "faults \<Rightarrow> clientId \<Rightarrow> server \<Rightarrow> server" where
  "onConnection flt c s =
     (let s1 = emit (SocketConfig c (activeConfig s))
                 (s\<lparr>activeClients := set_add c (activeClients s),
                    sockets := (sockets s)(c \<mapsto> True)\<rparr>)
      in if length (activeClients s1) = 1 then snd (startStreamIfNeeded flt s1) else s1)"

text \<open>The socket's \<^verbatim>\<open>disconnect\<close> handler (lines 850--860); socket.io has taken the
  socket out of \<^verbatim>\<open>io.sockets.sockets\<close> by then.\<close>

definition onDisconnect :: "faults \<Rightarrow> clientId \<Rightarrow> server \<Rightarrow> server" where
  "onDisconnect flt c s =
     stopStreamIfNoClients flt
       (s\<lparr>activeClients := set_delete c (activeClients s),
          frameQueues := (frameQueues s)(c := None),
          sockets := (sockets s)(c := None)\<rparr>)"

text \<open>The socket's \<^verbatim>\<open>update-config\<close> handler (lines 827--847).\<close>

definition onUpdateConfig :: "faults \<Rightarrow> clientId \<Rightarrow> configUpdate \<Rightarrow> server \<Rightarrow> server" where
  "onUpdateConfig flt c newConfig s =
     (case updateStreamConfig flt newConfig s of
        (Inr updatedConfig, s1) \<Rightarrow>
          setTimeout StatusReady 1000
            (emit (IoStatus ''restarting'') (emit (IoConfig updatedConfig) s1))
      | (Inl msg, s1) \<Rightarrow>
          emit (SocketError c ''Failed to update stream configuration'') s1)"

text \<open>\<^verbatim>\<open>POST /api/config\<close> (lines 304--312) and \<^verbatim>\<open>POST /api/config/reset\<close>
  (lines 315--322), which passes \<^verbatim>\<open>defaultConfig\<close> as the update.\<close>

definition postConfig :: "faults \<Rightarrow> configUpdate \<Rightarrow> server \<Rightarrow> server" where
  "postConfig flt newConfig s =
     (case updateStreamConfig flt newConfig s of
        (Inr updatedConfig, s1) \<Rightarrow> emit (ResJson 200 (UpdateOk updatedConfig)) s1
      | (Inl msg, s1) \<Rightarrow> emit (ResJson 400 (UpdateFailed msg)) s1)"

definition asUpdate :: "config \<Rightarrow> configUpdate" where
  "asUpdate cfg =
     \<lparr> new_rtspUrl = Some (rtspUrl cfg), new_transport = Some (transport cfg),
       new_frameRate = Some (frameRate cfg), new_resolution = Some (resolution cfg),
       new_quality = Some (quality cfg), new_port = Some (port cfg),
       new_ffmpegOptions = Some (ffmpegOptions cfg), new_extras = extras cfg \<rparr>"

section \<open>The event loop\<close>

text \<open>
  One event is one turn of the Node event loop: a handler runs to its end. A timer runs
  only when it is due. \<open>Transport\<close> is the environment changing a socket's entry in
  \<^verbatim>\<open>io.sockets.sockets\<close>, \<open>Advance\<close> is time passing. The handlers of
  \<^verbatim>\<open>disconnect\<close> and \<^verbatim>\<open>update-config\<close> are attached to a socket by the connection
  handler, so these events reach the program only for a registered client.
\<close>

datatype event =
    Connection clientId
  | Disconnect clientId
  | UpdateConfig clientId configUpdate
  | PostConfig configUpdate
  | PostReset
  | GetConfig
  | GetStats
  | Data frame
  | StreamStart
  | StreamStop
  | StreamError streamError
  | Fire nat
  | Advance nat
  | Transport clientId "bool option"

definition runAction :: "faults \<Rightarrow> action \<Rightarrow> server \<Rightarrow> server" where
  "runAction flt a s =
     (case a of
        ResetCounters \<Rightarrow> setTimeout ResetCounters 10000 (resetCounters s)
      | Restart \<Rightarrow> restartCallback flt s
      | Batch i bs f \<Rightarrow> processClientBatch i bs f s
      | StatusReady \<Rightarrow> emit (IoStatus ''ready'') s)"

definition fire :: "faults \<Rightarrow> nat \<Rightarrow> server \<Rightarrow> server" where
  "fire flt k s =
     (if k < length (timers s) \<and> fst (timers s ! k) \<le> clock s
      then runAction flt (snd (timers s ! k))
             (s\<lparr>timers := take k (timers s) @ drop (Suc k) (timers s)\<rparr>)
      else s)"

text \<open>The stream's events reach this program only through the listeners that
  \<^verbatim>\<open>createStream\<close> attached to the current instance.\<close>

definition attached :: "server \<Rightarrow> bool" where
  "attached s = (case stream s of None \<Rightarrow> False | Some src \<Rightarrow> listening src)"

definition sourceFailed :: "server \<Rightarrow> server" where
  "sourceFailed s =
     (case stream s of None \<Rightarrow> s | Some src \<Rightarrow> s\<lparr>stream := Some (src\<lparr>running := False\<rparr>)\<rparr>)"

definition step :: "faults \<Rightarrow> event \<Rightarrow> server \<Rightarrow> server" where
  "step flt e s =
     (case e of
        Connection c \<Rightarrow> onConnection flt c s
      | Disconnect c \<Rightarrow> if c \<in> set (activeClients s) then onDisconnect flt c s else s
      | UpdateConfig c u \<Rightarrow> if c \<in> set (activeClients s) then onUpdateConfig flt c u s else s
      | PostConfig u \<Rightarrow> postConfig flt u s
      | PostReset \<Rightarrow> postConfig flt (asUpdate defaultConfig) s
      | GetConfig \<Rightarrow> emit (ResJson 200 (ConfigBody (activeConfig s))) s
      | GetStats \<Rightarrow> emit (ResJson 200 (StatsBody (getStreamStats s))) s
      | Data f \<Rightarrow> if attached s then handleNewFrame f s else s
      | StreamStart \<Rightarrow> if attached s then onStreamStart s else s
      | StreamStop \<Rightarrow> if attached s then onStreamStop s else s
      | StreamError err \<Rightarrow> if attached s then onStreamError err (sourceFailed s) else s
      | Fire k \<Rightarrow> fire flt k s
      | Advance d \<Rightarrow> s\<lparr>clock := clock s + int d\<rparr>
      | Transport c v \<Rightarrow> s\<lparr>sockets := (sockets s)(c := v)\<rparr>)"

definition exec :: "faults \<Rightarrow> event list \<Rightarrow> server \<Rightarrow> server" where
  "exec flt es s = foldl (\<lambda>st e. step flt e st) s es"

text \<open>
  The module's top level: the variables as declared (lines 30--66) at time \<open>t0\<close>, then
  the startup call of line 865, whose constructor call is call number 0 and returned
  (had it thrown, there would be no process).
\<close>

definition moduleState :: "int \<Rightarrow> server" where
  "moduleState t0 =
     \<lparr> activeConfig = defaultConfig, stream = None, activeClients = [],
       frameCount = 0, totalFrames = 0, lastFrameTime = 0, lastCounterReset = t0,
       frameQueues = Map.empty, sockets = Map.empty,
       timers = [(t0 + 10000, ResetCounters)], clock = t0,
       instances = 0, calls = 0, effects = [] \<rparr>"

definition startup :: "int \<Rightarrow> server" where
  "startup t0 = snd (createStream (\<lambda>n. None) defaultConfig (moduleState t0))"

definition reachable :: "faults \<Rightarrow> int \<Rightarrow> server \<Rightarrow> bool" where
  "reachable flt t0 s = (\<exists>es. s = exec flt es (startup t0))"

section \<open>Predicates used in the statements\<close>

text \<open>Every queue that exists is empty.\<close>

definition queues_drained :: "server \<Rightarrow> bool" where
  "queues_drained s = (\<forall>c q. frameQueues s c = Some q \<longrightarrow> q = [])"


text \<open>What a handler did to the outside: the effects added between two states.\<close>

definition effectsSince :: "server \<Rightarrow> server \<Rightarrow> effect list" where
  "effectsSince s s' = drop (length (effects s)) (effects s')"

text \<open>How often a frame was sent to a client, and whether a client's socket is there and
  connected.\<close>

definition deliveries :: "clientId \<Rightarrow> frame \<Rightarrow> effect list \<Rightarrow> nat" where
  "deliveries c f es = count_list es (VolatileStream c f)"

definition sendable :: "server \<Rightarrow> clientId \<Rightarrow> bool" where
  "sendable s c = (sockets s c = Some True)"

text \<open>Eleven clients connected after startup: two batches.\<close>

definition elevenClients :: "clientId list" where
  "elevenClients = [''a'', ''b'', ''c'', ''d'', ''e'', ''f'', ''g'', ''h'', ''i'', ''j'', ''k'']"

definition elevenConnected :: server where
  "elevenConnected = exec (\<lambda>n. None) (map Connection elevenClients) (startup 0)"

text \<open>An error as the decoder reports it when the camera refuses the connection.\<close>

definition refused :: streamError where
  "refused = \<lparr> message = ''connect: Connection refused'', code = None \<rparr>"

text \<open>The terms of the lifecycle invariant: no library call throws; a restart timer is
  pending; the current instance runs.\<close>

definition nofault :: "faults \<Rightarrow> bool" where
  "nofault flt = (\<forall>n. flt n = None)"

definition restartPending :: "server \<Rightarrow> bool" where
  "restartPending s = (Restart \<in> snd ` set (timers s))"

definition sourceRunning :: "server \<Rightarrow> bool" where
  "sourceRunning s = (case stream s of None \<Rightarrow> False | Some src \<Rightarrow> running src)"

definition lifecycle_inv :: "server \<Rightarrow> bool" where
  "lifecycle_inv s =
     (stream s \<noteq> None \<and>
      (activeClients s = [] \<longrightarrow> \<not> sourceRunning s) \<and>
      (activeClients s \<noteq> [] \<longrightarrow> sourceRunning s \<or> restartPending s) \<and>
      (\<forall>t\<in>set (timers s). snd t = Restart \<longrightarrow> fst t \<le> clock s + 5000))"



text \<open>Updates used as examples: an empty one, one that the documented ranges exclude, one
  with a key outside the schema.\<close>

definition noUpdate :: configUpdate where
  "noUpdate = \<lparr> new_rtspUrl = None, new_transport = None, new_frameRate = None,
       new_resolution = None, new_quality = None, new_port = None,
       new_ffmpegOptions = None, new_extras = Map.empty \<rparr>"


definition extraUpdate :: configUpdate where
  "extraUpdate = noUpdate\<lparr> new_frameRate := Some 25, new_extras := [''foo'' \<mapsto> JStr ''bar''] \<rparr>"




section \<open>The player served to the browser\<close>

text \<open>
  \<^verbatim>\<open>RTSPPlayer\<close> is the client library that \<^verbatim>\<open>GET /rtsp-player.js\<close> serves (lines
  334--740); this is its state (lines 366--373) as far as the \<^verbatim>\<open>stream\<close> handler (lines
  474--546) uses it. An \<^verbatim>\<open>ImageBitmap\<close> is known by the unit it was decoded from and by
  whether \<^verbatim>\<open>close()\<close> was called on it. \<open>canvasOps\<close> lists the \<^verbatim>\<open>drawImage\<close> calls in
  order, whether or not they throw.
\<close>

record bitmap =
  decodedFrom :: frame
  closeCalled :: bool

datatype canvasOp =
    DrawOffscreen bitmap
  | CopyToVisible
  | RedrawLast bitmap

record player =
  pl_frameCount :: nat
  lastValidFrame :: "bitmap option"
  processingFrame :: bool
  frameTimeout :: bool
  skippedFrames :: nat
  pl_lastFrameTime :: int
  streamCheckInterval :: bool
  statusVisible :: bool
  connectionStatus :: string
  canvasOps :: "canvasOp list"
  pl_clock :: int







text \<open>The 500 ms timer of line 485, when it runs.\<close>

definition frameTimeoutFired :: "player \<Rightarrow> player" where
  "frameTimeoutFired p = p\<lparr>processingFrame := False\<rparr>"






section \<open>Reachable states\<close>

lemma exec_Nil: "exec flt [] s = s"
  by (simp add: exec_def)

lemma exec_snoc: "exec flt (es @ [e]) s = step flt e (exec flt es s)"
  by (simp add: exec_def)

lemma reachable_startup: "reachable flt t0 (startup t0)"
  unfolding reachable_def by (rule exI[of _ "[]"]) (simp add: exec_Nil)

lemma reachable_step: "reachable flt t0 s \<Longrightarrow> reachable flt t0 (step flt e s)"
  unfolding reachable_def
proof -
  assume "\<exists>es. s = exec flt es (startup t0)"
  then obtain es where "s = exec flt es (startup t0)" ..
  then have "step flt e s = exec flt (es @ [e]) (startup t0)" by (simp add: exec_snoc)
  then show "\<exists>es. step flt e s = exec flt es (startup t0)" ..
qed

text \<open>A property that holds after startup and that every event keeps holds in every
  reachable state.\<close>

lemma reachable_invariant:
  assumes r: "reachable flt t0 s"
    and base: "P (startup t0)"
    and stp: "\<And>s e. P s \<Longrightarrow> P (step flt e s)"
  shows "P s"
proof -
  from r obtain es where s: "s = exec flt es (startup t0)" unfolding reachable_def ..
  have "P (exec flt es (startup t0))"
  proof (induction es rule: rev_induct)
    case Nil
    show ?case using base by (simp add: exec_Nil)
  next
    case (snoc e es)
    then show ?case by (simp add: exec_snoc stp)
  qed
  with s show ?thesis by simp
qed

text \<open>The definitions a concrete run unfolds.\<close>

lemmas run_defs = exec_def step_def onConnection_def onDisconnect_def startStreamIfNeeded_def
  stopStreamIfNoClients_def start_call_def stop_call_def startup_def createStream_def
  moduleState_def handleNewFrame_def clientBatches_def processClientBatch_def
  queueFrameForClient_def set_add_def set_delete_def emit_def setTimeout_def
  MAX_QUEUE_SIZE_def MAX_CLIENTS_PER_FRAME_def attached_def Let_def ffmpegParamsOf_def
  defaultConfig_def

section \<open>The per-client queue\<close>

text \<open>What touches \<open>frameQueues\<close>: only \<open>queueFrameForClient\<close> and the disconnect
  handler.\<close>

lemma fq_stop_call [simp]: "frameQueues (stop_call flt s) = frameQueues s"
  by (simp add: stop_call_def split: option.splits)

lemma fq_start_call [simp]: "frameQueues (start_call flt s) = frameQueues s"
  by (simp add: start_call_def split: option.splits)

lemma fq_emit [simp]: "frameQueues (emit e s) = frameQueues s"
  by (simp add: emit_def)

lemma fq_setTimeout [simp]: "frameQueues (setTimeout a d s) = frameQueues s"
  by (simp add: setTimeout_def)

lemma fq_createStream [simp]: "frameQueues (snd (createStream flt cfg s)) = frameQueues s"
  by (simp add: createStream_def Let_def split: option.splits)

lemma fq_startStreamIfNeeded [simp]:
  "frameQueues (snd (startStreamIfNeeded flt s)) = frameQueues s"
proof -
  obtain r s1 where c: "createStream flt (activeConfig s) s = (r, s1)"
    by (cases "createStream flt (activeConfig s) s")
  then have "frameQueues s1 = frameQueues s"
    using fq_createStream[of flt "activeConfig s" s] by simp
  with c show ?thesis by (simp add: startStreamIfNeeded_def split: option.splits)
qed

lemma fq_updateStreamConfig [simp]:
  "frameQueues (snd (updateStreamConfig flt u s)) = frameQueues s"
proof -
  let ?s1 = "s\<lparr>activeConfig := mergeConfig (activeConfig s) u\<rparr>"
  obtain r s2 where c: "createStream flt (activeConfig ?s1) ?s1 = (r, s2)"
    by (cases "createStream flt (activeConfig ?s1) ?s1")
  then have a: "frameQueues s2 = frameQueues s"
    using fq_createStream[of flt "activeConfig ?s1" ?s1] by simp
  obtain r' s3 where d: "startStreamIfNeeded flt s2 = (r', s3)"
    by (cases "startStreamIfNeeded flt s2")
  then have b: "frameQueues s3 = frameQueues s2"
    using fq_startStreamIfNeeded[of flt s2] by simp
  from a b c d show ?thesis
    by (simp add: updateStreamConfig_def Let_def split: option.splits)
qed

lemma fq_restartCallback [simp]: "frameQueues (restartCallback flt s) = frameQueues s"
proof -
  obtain r s1 where c: "startStreamIfNeeded flt s = (r, s1)"
    by (cases "startStreamIfNeeded flt s")
  then have "frameQueues s1 = frameQueues s" using fq_startStreamIfNeeded[of flt s] by simp
  with c show ?thesis by (simp add: restartCallback_def split: option.splits)
qed

lemma fq_onUpdateConfig [simp]: "frameQueues (onUpdateConfig flt c u s) = frameQueues s"
proof -
  obtain r s1 where c: "updateStreamConfig flt u s = (r, s1)"
    by (cases "updateStreamConfig flt u s")
  then have "frameQueues s1 = frameQueues s" using fq_updateStreamConfig[of flt u s] by simp
  with c show ?thesis by (simp add: onUpdateConfig_def split: sum.splits)
qed

lemma fq_postConfig [simp]: "frameQueues (postConfig flt u s) = frameQueues s"
proof -
  obtain r s1 where c: "updateStreamConfig flt u s = (r, s1)"
    by (cases "updateStreamConfig flt u s")
  then have "frameQueues s1 = frameQueues s" using fq_updateStreamConfig[of flt u s] by simp
  with c show ?thesis by (simp add: postConfig_def split: sum.splits)
qed

lemma fq_onConnection [simp]: "frameQueues (onConnection flt c s) = frameQueues s"
  by (simp add: onConnection_def Let_def)

lemma fq_onStreamError [simp]: "frameQueues (onStreamError err s) = frameQueues s"
  by (simp add: onStreamError_def Let_def)

lemma fq_sourceFailed [simp]: "frameQueues (sourceFailed s) = frameQueues s"
  by (simp add: sourceFailed_def split: option.splits)

lemma fq_onDisconnect [simp]: "frameQueues (onDisconnect flt c s) = (frameQueues s)(c := None)"
  by (simp add: onDisconnect_def stopStreamIfNoClients_def)

text \<open>Every call of \<open>queueFrameForClient\<close> that stores anything empties the queue again
  before it returns, so a queue that exists is empty between events.\<close>

lemma queueFrameForClient_drained:
  "queues_drained s \<Longrightarrow> queues_drained (queueFrameForClient c f s)"
  by (auto simp: queues_drained_def queueFrameForClient_def Let_def)

lemma fold_queue_drained:
  "queues_drained s \<Longrightarrow> queues_drained (foldl (\<lambda>st c. queueFrameForClient c f st) s cs)"
  by (induction cs arbitrary: s) (simp_all add: queueFrameForClient_drained)

lemma processClientBatch_drained:
  "queues_drained s \<Longrightarrow> queues_drained (processClientBatch i bs f s)"
  using fold_queue_drained[of s f "bs ! i"]
  by (simp add: processClientBatch_def Let_def queues_drained_def)

lemma handleNewFrame_drained:
  "queues_drained s \<Longrightarrow> queues_drained (handleNewFrame f s)"
  unfolding handleNewFrame_def
  by (rule processClientBatch_drained) (simp add: queues_drained_def)

lemma runAction_drained: "queues_drained s \<Longrightarrow> queues_drained (runAction flt a s)"
proof (cases a)
  case (Batch i bs f)
  then show "queues_drained s \<Longrightarrow> ?thesis"
    by (simp add: runAction_def processClientBatch_drained)
qed (simp_all add: runAction_def queues_drained_def resetCounters_def)

lemma fire_drained: "queues_drained s \<Longrightarrow> queues_drained (fire flt k s)"
proof -
  assume q: "queues_drained s"
  let ?s' = "s\<lparr>timers := take k (timers s) @ drop (Suc k) (timers s)\<rparr>"
  have "queues_drained ?s'" using q by (simp add: queues_drained_def)
  then have "queues_drained (runAction flt (snd (timers s ! k)) ?s')"
    by (rule runAction_drained)
  with q show ?thesis by (simp add: fire_def)
qed

lemma step_drained: "queues_drained s \<Longrightarrow> queues_drained (step flt e s)"
proof (cases e)
  case (Fire k)
  then show "queues_drained s \<Longrightarrow> ?thesis" by (simp add: step_def fire_drained)
next
  case (Data f)
  then show "queues_drained s \<Longrightarrow> ?thesis" by (simp add: step_def handleNewFrame_drained)
qed (simp_all add: step_def queues_drained_def onStreamStart_def onStreamStop_def)

lemma startup_drained: "queues_drained (startup t0)"
  by (simp add: startup_def queues_drained_def moduleState_def)

lemma reachable_drained: "reachable flt t0 s \<Longrightarrow> queues_drained s"
  by (rule reachable_invariant[where P = queues_drained])
     (simp_all add: startup_drained step_drained)

text \<open>
  Claim C1 (queue bound). In every state the server reaches, whatever the events before,
  each client's queue holds at most one frame; and right after \<open>handleNewFrame f\<close> returns,
  no queue holds a frame other than \<open>f\<close>: an older frame never stays behind a newer one.
  (The queues are in fact empty between events: \<open>reachable_drained\<close>.)
\<close>

theorem queue_bound:
  assumes "reachable flt t0 s"
  shows "(\<forall>c q. frameQueues s c = Some q \<longrightarrow> length q \<le> 1) \<and>
         (\<forall>f c q. frameQueues (handleNewFrame f s) c = Some q \<longrightarrow>
                    length q \<le> 1 \<and> set q \<subseteq> {f})"
proof -
  have d: "queues_drained s" using assms by (rule reachable_drained)
  then have "queues_drained (handleNewFrame f s)" for f by (rule handleNewFrame_drained)
  with d show ?thesis unfolding queues_drained_def by fastforce
qed

theorem queue_bound_witness:
  "reachable (\<lambda>n. None) 0 (exec (\<lambda>n. None) [Connection ''a'', Data [1], Data [2]] (startup 0)) \<and>
   frameQueues (exec (\<lambda>n. None) [Connection ''a'', Data [1], Data [2]] (startup 0)) ''a''
     = Some [] \<and>
   frameQueues (handleNewFrame [3]
       (exec (\<lambda>n. None) [Connection ''a'', Data [1], Data [2]] (startup 0))) ''a'' = Some []"
proof -
  let ?s = "exec (\<lambda>n. None) [Connection ''a'', Data [1], Data [2]] (startup 0)"
  have h: "reachable (\<lambda>n. None) 0 ?s"
    unfolding reachable_def by (rule exI[of _ "[Connection ''a'', Data [1], Data [2]]"]) simp
  have a: "frameQueues ?s ''a'' = Some []" by (simp add: run_defs)
  have b: "frameQueues (handleNewFrame [3] ?s) ''a'' = Some []" by (simp add: run_defs)
  from h a b queue_bound[OF h] show ?thesis by simp
qed

section \<open>Newest frame wins\<close>





section \<open>Starting and stopping the stream\<close>

text \<open>After startup the variable \<open>stream\<close> always holds an instance.\<close>


lemma stream_stop_call [simp]: "(stream (stop_call flt s) = None) = (stream s = None)"
  by (simp add: stop_call_def split: option.splits)

lemma stream_start_call [simp]: "(stream (start_call flt s) = None) = (stream s = None)"
  by (simp add: start_call_def split: option.splits)

lemma stream_createStream: "stream s \<noteq> None \<Longrightarrow> stream (snd (createStream flt cfg s)) \<noteq> None"
  by (cases "stream s"; cases "flt (calls s)"; cases "flt (Suc (calls s))")
     (simp_all add: createStream_def stop_call_def emit_def Let_def)

lemma startStreamIfNeeded_exists:
  "stream s \<noteq> None \<Longrightarrow> startStreamIfNeeded flt s =
     (None, if length (activeClients s) > 0 then start_call flt s else s)"
  by (cases "stream s") (simp_all add: startStreamIfNeeded_def)

lemma stream_startStreamIfNeeded:
  "stream s \<noteq> None \<Longrightarrow> stream (snd (startStreamIfNeeded flt s)) \<noteq> None"
  by (simp add: startStreamIfNeeded_exists del: not_None_eq)

lemma stream_updateStreamConfig:
  assumes "stream s \<noteq> None" shows "stream (snd (updateStreamConfig flt u s)) \<noteq> None"
proof -
  let ?s1 = "s\<lparr>activeConfig := mergeConfig (activeConfig s) u\<rparr>"
  obtain r s2 where c: "createStream flt (activeConfig ?s1) ?s1 = (r, s2)"
    by (cases "createStream flt (activeConfig ?s1) ?s1")
  have a: "stream s2 \<noteq> None"
    using stream_createStream[of ?s1 flt "activeConfig ?s1"] assms c by simp
  then have b: "startStreamIfNeeded flt s2 = (None, if length (activeClients s2) > 0 then start_call flt s2 else s2)"
    by (rule startStreamIfNeeded_exists)
  from a b c show ?thesis
    by (cases r) (simp_all add: updateStreamConfig_def Let_def del: not_None_eq)
qed

lemma stream_processClientBatch [simp]: "stream (processClientBatch i bs f s) = stream s"
proof -
  have "stream (foldl (\<lambda>st c. queueFrameForClient c f st) s cs) = stream s" for cs
    by (induction cs arbitrary: s) (simp_all add: queueFrameForClient_def Let_def)
  then show ?thesis by (simp add: processClientBatch_def Let_def setTimeout_def)
qed

lemma stream_restartCallback: "stream s \<noteq> None \<Longrightarrow> stream (restartCallback flt s) \<noteq> None"
  by (simp add: restartCallback_def startStreamIfNeeded_exists del: not_None_eq)

lemma stream_runAction: "stream s \<noteq> None \<Longrightarrow> stream (runAction flt a s) \<noteq> None"
  by (cases a) (simp_all add: runAction_def stream_restartCallback setTimeout_def resetCounters_def emit_def)

lemma stream_fire: "stream s \<noteq> None \<Longrightarrow> stream (fire flt k s) \<noteq> None"
proof -
  assume s: "stream s \<noteq> None"
  let ?s' = "s\<lparr>timers := take k (timers s) @ drop (Suc k) (timers s)\<rparr>"
  have "stream ?s' \<noteq> None" using s by simp
  then have "stream (runAction flt (snd (timers s ! k)) ?s') \<noteq> None" by (rule stream_runAction)
  with s show ?thesis by (simp add: fire_def)
qed

lemma stream_onConnection: "stream s \<noteq> None \<Longrightarrow> stream (onConnection flt c s) \<noteq> None"
proof -
  assume s: "stream s \<noteq> None"
  let ?s1 = "emit (SocketConfig c (activeConfig s))
                 (s\<lparr>activeClients := set_add c (activeClients s),
                    sockets := (sockets s)(c \<mapsto> True)\<rparr>)"
  have "stream ?s1 \<noteq> None" using s by (simp add: emit_def)
  then have "stream (snd (startStreamIfNeeded flt ?s1)) \<noteq> None" by (rule stream_startStreamIfNeeded)
  with s show ?thesis by (simp add: onConnection_def Let_def emit_def)
qed

lemma stream_onDisconnect: "stream s \<noteq> None \<Longrightarrow> stream (onDisconnect flt c s) \<noteq> None"
  by (simp add: onDisconnect_def stopStreamIfNoClients_def del: not_None_eq)

lemma stream_postConfig: "stream s \<noteq> None \<Longrightarrow> stream (postConfig flt u s) \<noteq> None"
  using stream_updateStreamConfig[of s flt u]
  by (cases "updateStreamConfig flt u s") (simp add: postConfig_def emit_def split: sum.splits)

lemma stream_onUpdateConfig: "stream s \<noteq> None \<Longrightarrow> stream (onUpdateConfig flt c u s) \<noteq> None"
  using stream_updateStreamConfig[of s flt u]
  by (cases "updateStreamConfig flt u s") (simp add: onUpdateConfig_def emit_def setTimeout_def split: sum.splits)

lemma stream_onStreamError: "stream s \<noteq> None \<Longrightarrow> stream (onStreamError err (sourceFailed s)) \<noteq> None"
  by (cases "stream s") (simp_all add: onStreamError_def sourceFailed_def emit_def setTimeout_def Let_def)

lemma stream_step: "stream s \<noteq> None \<Longrightarrow> stream (step flt e s) \<noteq> None"
  by (cases e)
     (simp_all add: step_def stream_onConnection stream_onDisconnect stream_onUpdateConfig
        stream_postConfig stream_fire stream_onStreamError emit_def handleNewFrame_def
        onStreamStart_def onStreamStop_def del: not_None_eq)

lemma stream_startup: "stream (startup t0) \<noteq> None"
  by (simp add: startup_def createStream_def moduleState_def)

lemma stream_exists: "reachable flt t0 s \<Longrightarrow> stream s \<noteq> None"
  by (rule reachable_invariant[where P = "\<lambda>s. stream s \<noteq> None"])
     (simp_all add: stream_startup stream_step)

lemma effects_start_call:
  "stream s = Some src \<Longrightarrow> effects (start_call flt s) = effects s @ [Start (src_id src)]"
  by (simp add: start_call_def)

lemma effects_stop_call:
  "stream s = Some src \<Longrightarrow> effects (stop_call flt s) = effects s @ [Stop (src_id src)]"
  by (simp add: stop_call_def)

lemma onConnection_first:
  assumes "stream s = Some src" "activeClients s = []"
  shows "effects (onConnection flt c s) = effects s @ [SocketConfig c (activeConfig s), Start (src_id src)]"
  using assms
  by (simp add: onConnection_def Let_def set_add_def emit_def startStreamIfNeeded_def start_call_def)

lemma onConnection_later:
  assumes "c \<notin> set (activeClients s)" "activeClients s \<noteq> []"
  shows "effects (onConnection flt c s) = effects s @ [SocketConfig c (activeConfig s)]"
  using assms
  by (simp add: onConnection_def Let_def set_add_def emit_def)

lemma set_delete_Nil: "(set_delete d cs = []) = (set cs \<subseteq> {d})"
  by (auto simp: set_delete_def filter_empty_conv)

lemma onDisconnect_last:
  assumes "stream s = Some src" "set (activeClients s) \<subseteq> {d}"
  shows "effects (onDisconnect flt d s) = effects s @ [Stop (src_id src)]"
  using assms
  by (simp add: onDisconnect_def stopStreamIfNoClients_def set_delete_Nil stop_call_def)

lemma onDisconnect_others:
  assumes "\<not> set (activeClients s) \<subseteq> {d}"
  shows "effects (onDisconnect flt d s) = effects s"
  using assms
  by (simp add: onDisconnect_def stopStreamIfNoClients_def set_delete_Nil)

text \<open>
  Claim C3 (lifecycle symmetry). In every reachable state the stream object exists, and:
  the connection of the first client makes exactly one \<^verbatim>\<open>start\<close> call and no
  \<^verbatim>\<open>stop\<close>; the connection of a further client makes neither; the disconnect of the
  only client makes exactly one \<^verbatim>\<open>stop\<close> call and no \<^verbatim>\<open>start\<close>; the disconnect of
  a client while others remain makes neither. \<open>effectsSince\<close> lists everything the handler
  did to the outside.
\<close>

theorem lifecycle_symmetry:
  assumes "reachable flt t0 s"
  shows "\<exists>src. stream s = Some src \<and>
     (activeClients s = [] \<longrightarrow>
        effectsSince s (step flt (Connection c) s)
          = [SocketConfig c (activeConfig s), Start (src_id src)]) \<and>
     (activeClients s \<noteq> [] \<and> c \<notin> set (activeClients s) \<longrightarrow>
        effectsSince s (step flt (Connection c) s) = [SocketConfig c (activeConfig s)]) \<and>
     (set (activeClients s) = {c} \<longrightarrow>
        effectsSince s (step flt (Disconnect c) s) = [Stop (src_id src)]) \<and>
     (c \<in> set (activeClients s) \<and> set (activeClients s) \<noteq> {c} \<longrightarrow>
        effectsSince s (step flt (Disconnect c) s) = [])"
proof -
  from assms have "stream s \<noteq> None" by (rule stream_exists)
  then obtain src where src: "stream s = Some src" by blast
  have 1: "activeClients s = [] \<Longrightarrow> effectsSince s (step flt (Connection c) s)
          = [SocketConfig c (activeConfig s), Start (src_id src)]"
    using onConnection_first[OF src, of flt c] by (simp add: step_def effectsSince_def)
  have 2: "activeClients s \<noteq> [] \<and> c \<notin> set (activeClients s) \<Longrightarrow>
        effectsSince s (step flt (Connection c) s) = [SocketConfig c (activeConfig s)]"
    using onConnection_later[of c s flt] by (simp add: step_def effectsSince_def)
  have 3: "set (activeClients s) = {c} \<Longrightarrow>
        effectsSince s (step flt (Disconnect c) s) = [Stop (src_id src)]"
    using onDisconnect_last[OF src, of c flt] by (simp add: step_def effectsSince_def)
  have 4: "effectsSince s (step flt (Disconnect c) s) = []"
    if h: "c \<in> set (activeClients s) \<and> set (activeClients s) \<noteq> {c}"
  proof -
    from h have "\<not> set (activeClients s) \<subseteq> {c}" by blast
    then have "effects (onDisconnect flt c s) = effects s" by (rule onDisconnect_others)
    with h show ?thesis by (simp add: step_def effectsSince_def)
  qed
  from src 1 2 3 4 show ?thesis by blast
qed

theorem lifecycle_symmetry_witness:
  "reachable (\<lambda>n. None) 0 (startup 0) \<and>
   activeClients (startup 0) = [] \<and>
   effectsSince (startup 0) (step (\<lambda>n. None) (Connection ''a'') (startup 0))
     = [SocketConfig ''a'' defaultConfig, Start 0] \<and>
   reachable (\<lambda>n. None) 0 (exec (\<lambda>n. None) [Connection ''a''] (startup 0)) \<and>
   set (activeClients (exec (\<lambda>n. None) [Connection ''a''] (startup 0))) = {''a''} \<and>
   ''b'' \<notin> set (activeClients (exec (\<lambda>n. None) [Connection ''a''] (startup 0))) \<and>
   effectsSince (exec (\<lambda>n. None) [Connection ''a''] (startup 0))
      (step (\<lambda>n. None) (Connection ''b'') (exec (\<lambda>n. None) [Connection ''a''] (startup 0)))
     = [SocketConfig ''b'' defaultConfig] \<and>
   effectsSince (exec (\<lambda>n. None) [Connection ''a''] (startup 0))
      (step (\<lambda>n. None) (Disconnect ''a'') (exec (\<lambda>n. None) [Connection ''a''] (startup 0)))
     = [Stop 0] \<and>
   reachable (\<lambda>n. None) 0 (exec (\<lambda>n. None) [Connection ''a'', Connection ''b''] (startup 0)) \<and>
   effectsSince (exec (\<lambda>n. None) [Connection ''a'', Connection ''b''] (startup 0))
      (step (\<lambda>n. None) (Disconnect ''a'') (exec (\<lambda>n. None) [Connection ''a'', Connection ''b''] (startup 0)))
     = []"
proof -
  let ?f = "\<lambda>n::nat. None :: string option"
  let ?s1 = "exec ?f [Connection ''a''] (startup 0)"
  let ?s2 = "exec ?f [Connection ''a'', Connection ''b''] (startup 0)"
  have r0: "reachable ?f 0 (startup 0)" by (rule reachable_startup)
  have r1: "reachable ?f 0 ?s1" unfolding reachable_def by (rule exI[of _ "[Connection ''a'']"]) simp
  have r2: "reachable ?f 0 ?s2" unfolding reachable_def by (rule exI[of _ "[Connection ''a'', Connection ''b'']"]) simp
  have a0: "activeClients (startup 0) = []" "stream (startup 0) = Some \<lparr>src_id = 0, src_params = ffmpegParamsOf defaultConfig, listening = True, running = False\<rparr>"
    "activeConfig (startup 0) = defaultConfig"
    by (simp_all add: startup_def createStream_def moduleState_def)
  have a1: "activeClients ?s1 = [''a'']" "activeConfig ?s1 = defaultConfig"
     "stream ?s1 = Some \<lparr>src_id = 0, src_params = ffmpegParamsOf defaultConfig, listening = True, running = True\<rparr>"
    by (simp_all add: run_defs)
  have a2: "activeClients ?s2 = [''a'', ''b'']"
     "stream ?s2 = Some \<lparr>src_id = 0, src_params = ffmpegParamsOf defaultConfig, listening = True, running = True\<rparr>"
    by (simp_all add: run_defs)
  from lifecycle_symmetry[OF r0, of "''a''"] a0
  have c0: "effectsSince (startup 0) (step ?f (Connection ''a'') (startup 0))
     = [SocketConfig ''a'' defaultConfig, Start 0]" by simp
  from lifecycle_symmetry[OF r1, of "''b''"] a1
  have c1: "effectsSince ?s1 (step ?f (Connection ''b'') ?s1) = [SocketConfig ''b'' defaultConfig]" by simp
  from lifecycle_symmetry[OF r1, of "''a''"] a1
  have c2: "effectsSince ?s1 (step ?f (Disconnect ''a'') ?s1) = [Stop 0]" by simp
  from lifecycle_symmetry[OF r2, of "''a''"] a2
  have c3: "effectsSince ?s2 (step ?f (Disconnect ''a'') ?s2) = []" by auto
  from r0 r1 r2 a0 a1 a2 c0 c1 c2 c3 show ?thesis by simp
qed

section \<open>Batches\<close>


lemma batchLoop_spec:
  assumes "length cur < 10" "batchLoop cs cur acc = (acc', cur')"
  shows "concat acc' @ cur' = concat acc @ cur @ cs \<and> length cur' < 10 \<and>
         length acc' * 10 + length cur' = length acc * 10 + length cur + length cs \<and>
         (\<forall>b\<in>set acc'. b \<in> set acc \<or> length b = 10)"
  using assms
proof (induction cs arbitrary: cur acc)
  case Nil
  then show ?case by simp
next
  case (Cons c cs)
  show ?case
  proof (cases "length cur = 9")
    case True
    with Cons.prems have "batchLoop cs [] (acc @ [cur @ [c]]) = (acc', cur')"
      by (simp add: MAX_CLIENTS_PER_FRAME_def)
    from Cons.IH[OF _ this]
    have 1: "concat acc' @ cur' = concat (acc @ [cur @ [c]]) @ [] @ cs"
      and 2: "length cur' < 10"
      and 3: "length acc' * 10 + length cur' =
                length (acc @ [cur @ [c]]) * 10 + length ([]::clientId list) + length cs"
      and 4: "\<forall>b\<in>set acc'. b \<in> set (acc @ [cur @ [c]]) \<or> length b = 10"
      by simp_all
    have "concat acc' @ cur' = concat acc @ cur @ c # cs" using 1 by simp
    moreover have "length acc' * 10 + length cur' = length acc * 10 + length cur + length (c # cs)"
      using 3 True by simp
    moreover have "\<forall>b\<in>set acc'. b \<in> set acc \<or> length b = 10"
    proof
      fix b assume "b \<in> set acc'"
      with 4 have "b \<in> set (acc @ [cur @ [c]]) \<or> length b = 10" by blast
      with True show "b \<in> set acc \<or> length b = 10" by auto
    qed
    ultimately show ?thesis using 2 by blast
  next
    case False
    with Cons.prems have l: "length (cur @ [c]) < 10" by simp
    with Cons.prems have "batchLoop cs (cur @ [c]) acc = (acc', cur')"
      by (simp add: MAX_CLIENTS_PER_FRAME_def)
    from Cons.IH[OF l this]
    have 1: "concat acc' @ cur' = concat acc @ (cur @ [c]) @ cs"
      and 2: "length cur' < 10"
      and 3: "length acc' * 10 + length cur' = length acc * 10 + length (cur @ [c]) + length cs"
      and 4: "\<forall>b\<in>set acc'. b \<in> set acc \<or> length b = 10"
      by blast+
    have "concat acc' @ cur' = concat acc @ cur @ c # cs" using 1 by simp
    moreover have "length acc' * 10 + length cur' = length acc * 10 + length cur + length (c # cs)"
      using 3 by simp
    ultimately show ?thesis using 2 4 by blast
  qed
qed

lemma ceil_div_pos:
  "a * 10 + r = n \<Longrightarrow> r < 10 \<Longrightarrow> 0 < r \<Longrightarrow> Suc a = (n + 9) div (10::nat)"
proof -
  assume n: "a * 10 + r = n" and r: "r < 10" "0 < r"
  have "(r + 9) div 10 = 1" using r by simp
  moreover have "n + 9 = (r + 9) + a * 10" using n by simp
  ultimately show ?thesis by (simp only: div_mult_self1 div_mult_self2)
qed

lemma ceil_div_zero: "a * 10 = n \<Longrightarrow> a = (n + 9) div (10::nat)"
proof -
  assume n: "a * 10 = n"
  have "n + 9 = 9 + a * 10" using n by simp
  then show ?thesis by (simp only: div_mult_self1 div_mult_self2)
qed

lemma clientBatches_length: "length (clientBatches cs) = (length cs + 9) div 10"
proof -
  obtain acc cur where b: "batchLoop cs [] [] = (acc, cur)" by (cases "batchLoop cs [] []")
  from batchLoop_spec[OF _ b] have e: "length acc * 10 + length cur = length cs" and l: "length cur < 10"
    by simp_all
  have "length (clientBatches cs) = (if length cur > 0 then length acc + 1 else length acc)"
    using b by (simp add: clientBatches_def)
  also have "\<dots> = (length cs + 9) div 10"
  proof (cases "length cur = 0")
    case True
    with e show ?thesis using ceil_div_zero[of "length acc" "length cs"] by simp
  next
    case False
    with e l show ?thesis using ceil_div_pos[of "length acc" "length cur" "length cs"] by simp
  qed
  finally show ?thesis .
qed

lemma clientBatches_concat: "concat (clientBatches cs) = cs"
proof -
  obtain acc cur where b: "batchLoop cs [] [] = (acc, cur)" by (cases "batchLoop cs [] []")
  from batchLoop_spec[OF _ b] have "concat acc @ cur = cs" by simp
  with b show ?thesis by (auto simp add: clientBatches_def)
qed

lemma clientBatches_sizes: "b \<in> set (clientBatches cs) \<Longrightarrow> b \<noteq> [] \<and> length b \<le> 10"
proof -
  assume m: "b \<in> set (clientBatches cs)"
  obtain acc cur where b: "batchLoop cs [] [] = (acc, cur)" by (cases "batchLoop cs [] []")
  from batchLoop_spec[OF _ b] have "\<forall>b\<in>set acc. length b = 10" "length cur < 10" by simp_all
  with b m show ?thesis by (auto simp add: clientBatches_def split: if_splits)
qed

lemma ac_stop_call [simp]: "activeClients (stop_call flt s) = activeClients s"
  by (simp add: stop_call_def split: option.splits)

lemma ac_start_call [simp]: "activeClients (start_call flt s) = activeClients s"
  by (simp add: start_call_def split: option.splits)

lemma ac_emit [simp]: "activeClients (emit e s) = activeClients s"
  by (simp add: emit_def)

lemma ac_setTimeout [simp]: "activeClients (setTimeout a d s) = activeClients s"
  by (simp add: setTimeout_def)

lemma ac_createStream [simp]: "activeClients (snd (createStream flt cfg s)) = activeClients s"
  by (simp add: createStream_def Let_def split: option.splits)

lemma ac_startStreamIfNeeded [simp]:
  "activeClients (snd (startStreamIfNeeded flt s)) = activeClients s"
proof -
  obtain r s1 where c: "createStream flt (activeConfig s) s = (r, s1)"
    by (cases "createStream flt (activeConfig s) s")
  then have "activeClients s1 = activeClients s"
    using ac_createStream[of flt "activeConfig s" s] by simp
  with c show ?thesis by (simp add: startStreamIfNeeded_def split: option.splits)
qed

lemma ac_updateStreamConfig [simp]:
  "activeClients (snd (updateStreamConfig flt u s)) = activeClients s"
proof -
  let ?s1 = "s\<lparr>activeConfig := mergeConfig (activeConfig s) u\<rparr>"
  obtain r s2 where c: "createStream flt (activeConfig ?s1) ?s1 = (r, s2)"
    by (cases "createStream flt (activeConfig ?s1) ?s1")
  then have a: "activeClients s2 = activeClients s"
    using ac_createStream[of flt "activeConfig ?s1" ?s1] by simp
  obtain r' s3 where d: "startStreamIfNeeded flt s2 = (r', s3)"
    by (cases "startStreamIfNeeded flt s2")
  then have b: "activeClients s3 = activeClients s2"
    using ac_startStreamIfNeeded[of flt s2] by simp
  from a b c d show ?thesis
    by (simp add: updateStreamConfig_def Let_def split: option.splits)
qed

lemma ac_restartCallback [simp]: "activeClients (restartCallback flt s) = activeClients s"
proof -
  obtain r s1 where c: "startStreamIfNeeded flt s = (r, s1)"
    by (cases "startStreamIfNeeded flt s")
  then have "activeClients s1 = activeClients s" using ac_startStreamIfNeeded[of flt s] by simp
  with c show ?thesis by (simp add: restartCallback_def split: option.splits)
qed

lemma ac_onUpdateConfig [simp]: "activeClients (onUpdateConfig flt c u s) = activeClients s"
proof -
  obtain r s1 where c: "updateStreamConfig flt u s = (r, s1)"
    by (cases "updateStreamConfig flt u s")
  then have "activeClients s1 = activeClients s" using ac_updateStreamConfig[of flt u s] by simp
  with c show ?thesis by (simp add: onUpdateConfig_def split: sum.splits)
qed

lemma ac_postConfig [simp]: "activeClients (postConfig flt u s) = activeClients s"
proof -
  obtain r s1 where c: "updateStreamConfig flt u s = (r, s1)"
    by (cases "updateStreamConfig flt u s")
  then have "activeClients s1 = activeClients s" using ac_updateStreamConfig[of flt u s] by simp
  with c show ?thesis by (simp add: postConfig_def split: sum.splits)
qed


lemma ac_queueFrameForClient [simp]: "activeClients (queueFrameForClient c f s) = activeClients s"
  by (simp add: queueFrameForClient_def Let_def)

lemma ac_fold_queue [simp]:
  "activeClients (foldl (\<lambda>st c. queueFrameForClient c f st) s cs) = activeClients s"
  by (induction cs arbitrary: s) simp_all

lemma ac_processClientBatch [simp]: "activeClients (processClientBatch i bs f s) = activeClients s"
  by (simp add: processClientBatch_def Let_def)

lemma ac_handleNewFrame [simp]: "activeClients (handleNewFrame f s) = activeClients s"
  by (simp add: handleNewFrame_def)

lemma ac_onStreamError [simp]: "activeClients (onStreamError err s) = activeClients s"
  by (simp add: onStreamError_def Let_def)

lemma ac_sourceFailed [simp]: "activeClients (sourceFailed s) = activeClients s"
  by (simp add: sourceFailed_def split: option.splits)

lemma ac_runAction [simp]: "activeClients (runAction flt a s) = activeClients s"
  by (cases a) (simp_all add: runAction_def resetCounters_def)

lemma ac_fire [simp]: "activeClients (fire flt k s) = activeClients s"
  by (simp add: fire_def)

lemma ac_onConnection [simp]:
  "activeClients (onConnection flt c s) = set_add c (activeClients s)"
  by (simp add: onConnection_def Let_def)

lemma ac_onDisconnect [simp]:
  "activeClients (onDisconnect flt c s) = set_delete c (activeClients s)"
  by (simp add: onDisconnect_def stopStreamIfNoClients_def)

lemma set_delete_absent: "c \<notin> set cs \<Longrightarrow> set_delete c cs = cs"
  by (induction cs) (auto simp add: set_delete_def)

lemma ac_step:
  "activeClients (step flt e s) =
     (case e of Connection c \<Rightarrow> set_add c (activeClients s)
      | Disconnect c \<Rightarrow> set_delete c (activeClients s)
      | _ \<Rightarrow> activeClients s)"
  by (cases e) (simp_all add: step_def onStreamStart_def onStreamStop_def set_delete_absent)

lemma distinct_step: "distinct (activeClients s) \<Longrightarrow> distinct (activeClients (step flt e s))"
  by (cases e) (simp_all add: ac_step set_add_def set_delete_def)

lemma reachable_distinct: "reachable flt t0 s \<Longrightarrow> distinct (activeClients s)"
  by (rule reachable_invariant[where P = "\<lambda>s. distinct (activeClients s)"])
     (simp_all add: distinct_step startup_def moduleState_def)


lemma queue_effects:
  "effects (queueFrameForClient c f s) = effects s @ (if sendable s c then [VolatileStream c f] else [])"
  by (simp add: queueFrameForClient_def Let_def MAX_QUEUE_SIZE_def sendable_def)

lemma queue_untouched [simp]:
  "sockets (queueFrameForClient c f s) = sockets s"
  "timers (queueFrameForClient c f s) = timers s"
  "clock (queueFrameForClient c f s) = clock s"
  by (simp_all add: queueFrameForClient_def Let_def)

lemma sendable_queue [simp]: "sendable (queueFrameForClient c f s) = sendable s"
  by (simp add: sendable_def fun_eq_iff)

lemma fold_queue_untouched [simp]:
  "sockets (foldl (\<lambda>st c. queueFrameForClient c f st) s cs) = sockets s"
  "timers (foldl (\<lambda>st c. queueFrameForClient c f st) s cs) = timers s"
  "clock (foldl (\<lambda>st c. queueFrameForClient c f st) s cs) = clock s"
  by (induction cs arbitrary: s) simp_all

lemma fold_queue_effects:
  "effects (foldl (\<lambda>st c. queueFrameForClient c f st) s cs) =
     effects s @ map (\<lambda>c. VolatileStream c f) (filter (sendable s) cs)"
  by (induction cs arbitrary: s) (simp_all add: queue_effects)

lemma processClientBatch_effects_nth:
  "i < length bs \<Longrightarrow> effects (processClientBatch i bs f t) =
     effects t @ map (\<lambda>c. VolatileStream c f) (filter (sendable t) (bs ! i))"
  by (simp add: processClientBatch_def Let_def fold_queue_effects setTimeout_def)

lemma processClientBatch_effects:
  "effects (processClientBatch i bs f t) =
     effects t @ map (\<lambda>c. VolatileStream c f) (filter (sendable t) (concat (take 1 (drop i bs))))"
proof (cases "i < length bs")
  case True
  then have "concat (take 1 (drop i bs)) = bs ! i"
    by (metis Cons_nth_drop_Suc One_nat_def take0 take_Suc_Cons concat.simps append_Nil2)
  with True show ?thesis
    by (simp only: processClientBatch_effects_nth)
next
  case False
  then show ?thesis by (simp add: processClientBatch_def)
qed

lemma processClientBatch_timers:
  "timers (processClientBatch i bs f t) =
     timers t @ (if i + 1 < length bs then [(clock t + 5, Batch (i + 1) bs f)] else [])"
  by (simp add: processClientBatch_def Let_def setTimeout_def)

lemma batches_disjoint:
  "distinct (concat bs) \<Longrightarrow> i < j \<Longrightarrow> j < length bs \<Longrightarrow> set (bs ! i) \<inter> set (bs ! j) = {}"
proof (induction bs arbitrary: i j)
  case Nil
  then show ?case by simp
next
  case (Cons b bs)
  from Cons.prems obtain j' where j': "j = Suc j'" by (cases j) auto
  show ?case
  proof (cases i)
    case 0
    from Cons.prems j' have "bs ! j' \<in> set bs" by simp
    then have "set (bs ! j') \<subseteq> set (concat bs)" by auto
    moreover from Cons.prems have "set b \<inter> set (concat bs) = {}" by simp
    ultimately show ?thesis using 0 j' by auto
  next
    case (Suc i')
    with Cons.prems j' have "set (bs ! i') \<inter> set (bs ! j') = {}"
      by (intro Cons.IH) simp_all
    with Suc j' show ?thesis by simp
  qed
qed

lemma batch_unique:
  assumes "distinct (concat bs)" "i < length bs" "j < length bs"
    "c \<in> set (bs ! i)" "c \<in> set (bs ! j)"
  shows "i = j"
proof (rule ccontr)
  assume "i \<noteq> j"
  then consider "i < j" | "j < i" by linarith
  then show False
  proof cases
    case 1
    from batches_disjoint[OF assms(1) 1 assms(3)] assms(4,5) show False by auto
  next
    case 2
    from batches_disjoint[OF assms(1) 2 assms(2)] assms(4,5) show False by auto
  qed
qed

lemma count_list_distinct:
  "distinct xs \<Longrightarrow> count_list xs x = (if x \<in> set xs then 1 else 0)"
  by (induction xs) auto

lemma batch_deliveries:
  assumes "i < length bs" "distinct (bs ! i)"
  shows "deliveries c f (effectsSince t (processClientBatch i bs f t)) =
           (if c \<in> set (bs ! i) \<and> sendable t c then 1 else 0)"
proof -
  have inj: "inj (\<lambda>c. VolatileStream c f)" by (simp add: inj_on_def)
  have d: "distinct (filter (sendable t) (bs ! i))" using assms(2) by simp
  have "deliveries c f (effectsSince t (processClientBatch i bs f t)) =
          count_list (map (\<lambda>c. VolatileStream c f) (filter (sendable t) (bs ! i))) (VolatileStream c f)"
    using assms(1) by (simp add: deliveries_def effectsSince_def processClientBatch_effects_nth)
  also have "\<dots> = count_list (filter (sendable t) (bs ! i)) c"
    by (rule count_list_map_conv[OF inj])
  also have "\<dots> = (if c \<in> set (bs ! i) \<and> sendable t c then 1 else 0)"
    using count_list_distinct[OF d, of c] by auto
  finally show ?thesis .
qed

lemma deliveries_total:
  assumes "distinct (concat bs)"
  shows "(\<Sum>i<length bs. deliveries c f (effectsSince (t i) (processClientBatch i bs f (t i)))) \<le> 1"
proof -
  have db: "distinct (bs ! i)" if "i < length bs" for i
    using assms that by (metis distinct_concat_iff nth_mem)
  let ?D = "\<lambda>i. deliveries c f (effectsSince (t i) (processClientBatch i bs f (t i)))"
  show ?thesis
  proof (cases "\<exists>j<length bs. c \<in> set (bs ! j)")
    case False
    then have "?D i = 0" if "i < length bs" for i
      using batch_deliveries[OF that db[OF that], of c f "t i"] that by auto
    then have "(\<Sum>i<length bs. ?D i) = 0" by simp
    then show ?thesis by simp
  next
    case True
    then obtain j where j: "j < length bs" "c \<in> set (bs ! j)" by blast
    have z: "?D i = 0" if "i \<in> {..<length bs} - {j}" for i
    proof -
      from that have i: "i < length bs" "i \<noteq> j" by auto
      with batch_unique[OF assms i(1) j(1) _ j(2)] have "c \<notin> set (bs ! i)" by blast
      with batch_deliveries[OF i(1) db[OF i(1)], of c f "t i"] show ?thesis by simp
    qed
    have "(\<Sum>i<length bs. ?D i) = ?D j + (\<Sum>i\<in>{..<length bs} - {j}. ?D i)"
      using j(1) by (simp add: sum.remove)
    also have "\<dots> = ?D j" using z by simp
    also have "\<dots> \<le> 1" using batch_deliveries[OF j(1) db[OF j(1)], of c f "t j"] by simp
    finally show ?thesis .
  qed
qed


lemma handleNewFrame_sendable: "sendable (s\<lparr>totalFrames := a, frameCount := b, lastFrameTime := c\<rparr>) = sendable s"
  by (simp add: sendable_def fun_eq_iff)

lemma clock_handleNewFrame [simp]: "clock (handleNewFrame f s) = clock s"
  by (simp add: handleNewFrame_def processClientBatch_def Let_def setTimeout_def)

text \<open>
  Claim C4 (batch completeness). For a frame \<open>f\<close> arriving in a reachable state with
  \<open>N\<close> registered clients, and \<open>bs\<close> the batches \<open>handleNewFrame\<close> builds:
  there are \<open>\<lceil>N / 10\<rceil>\<close> batches, they are the client list cut into pieces of at most 10
  in order; \<open>handleNewFrame\<close> itself sends to the connected clients of batch 0 and leaves
  one timer for batch 1, due 5 ms later, when there is a batch 1; processing batch \<open>i\<close> (in
  whatever state \<open>t\<close> the server is by then) sends to the connected clients of batch \<open>i\<close> and
  leaves one timer for batch \<open>i + 1\<close>, due 5 ms later, when there is one, so the batches
  run in index order; a batch timer runs its batch when due and does nothing before; and
  over all batches, in whatever states \<open>t i\<close> they run, a client gets the frame at most once.
\<close>

theorem batch_completeness:
  assumes "reachable flt t0 s"
  shows "let bs = clientBatches (activeClients s) in
    length bs = (length (activeClients s) + 9) div 10 \<and>
    concat bs = activeClients s \<and>
    (\<forall>b\<in>set bs. b \<noteq> [] \<and> length b \<le> 10) \<and>
    effects (handleNewFrame f s) =
      effects s @ map (\<lambda>c. VolatileStream c f) (filter (sendable s) (concat (take 1 bs))) \<and>
    timers (handleNewFrame f s) =
      timers s @ (if 1 < length bs then [(clock s + 5, Batch 1 bs f)] else []) \<and>
    (\<forall>i t. i < length bs \<longrightarrow>
       effects (processClientBatch i bs f t) =
         effects t @ map (\<lambda>c. VolatileStream c f) (filter (sendable t) (bs ! i)) \<and>
       timers (processClientBatch i bs f t) =
         timers t @ (if i + 1 < length bs then [(clock t + 5, Batch (i + 1) bs f)] else [])) \<and>
    (\<forall>t k i due. k < length (timers t) \<and> timers t ! k = (due, Batch i bs f) \<longrightarrow>
       fire flt k t =
         (if due \<le> clock t
          then processClientBatch i bs f (t\<lparr>timers := take k (timers t) @ drop (Suc k) (timers t)\<rparr>)
          else t)) \<and>
    (\<forall>c t. (\<Sum>i<length bs.
        deliveries c f (effectsSince (t i) (processClientBatch i bs f (t i)))) \<le> 1)"
proof -
  define bs where "bs = clientBatches (activeClients s)"
  have d: "distinct (concat bs)"
    using reachable_distinct[OF assms] by (simp add: bs_def clientBatches_concat)
  have 1: "length bs = (length (activeClients s) + 9) div 10"
    by (simp add: bs_def clientBatches_length)
  have 2: "concat bs = activeClients s" by (simp add: bs_def clientBatches_concat)
  have 3: "\<forall>b\<in>set bs. b \<noteq> [] \<and> length b \<le> 10"
    using clientBatches_sizes[of _ "activeClients s"] by (simp add: bs_def)
  have 4: "effects (handleNewFrame f s) =
      effects s @ map (\<lambda>c. VolatileStream c f) (filter (sendable s) (concat (take 1 bs)))"
    unfolding handleNewFrame_def bs_def[symmetric]
    by (simp only: processClientBatch_effects handleNewFrame_sendable drop_0) simp
  have 5: "timers (handleNewFrame f s) =
      timers s @ (if 1 < length bs then [(clock s + 5, Batch 1 bs f)] else [])"
    unfolding handleNewFrame_def bs_def[symmetric]
    by (simp add: processClientBatch_timers)
  have 6: "\<forall>i t. i < length bs \<longrightarrow>
       effects (processClientBatch i bs f t) =
         effects t @ map (\<lambda>c. VolatileStream c f) (filter (sendable t) (bs ! i)) \<and>
       timers (processClientBatch i bs f t) =
         timers t @ (if i + 1 < length bs then [(clock t + 5, Batch (i + 1) bs f)] else [])"
    by (simp add: processClientBatch_effects_nth processClientBatch_timers)
  have 7: "\<forall>t k i due. k < length (timers t) \<and> timers t ! k = (due, Batch i bs f) \<longrightarrow>
       fire flt k t =
         (if due \<le> clock t
          then processClientBatch i bs f (t\<lparr>timers := take k (timers t) @ drop (Suc k) (timers t)\<rparr>)
          else t)"
    by (simp add: fire_def runAction_def)
  have 8: "\<forall>c t. (\<Sum>i<length bs.
        deliveries c f (effectsSince (t i) (processClientBatch i bs f (t i)))) \<le> 1"
    using deliveries_total[OF d] by blast
  from 1 2 3 4 5 6 7 8 show ?thesis unfolding Let_def bs_def[symmetric] by blast
qed


lemma sk_stop_call [simp]: "sockets (stop_call flt s) = sockets s"
  by (simp add: stop_call_def split: option.splits)

lemma sk_start_call [simp]: "sockets (start_call flt s) = sockets s"
  by (simp add: start_call_def split: option.splits)

lemma sk_emit [simp]: "sockets (emit e s) = sockets s"
  by (simp add: emit_def)

lemma sk_setTimeout [simp]: "sockets (setTimeout a d s) = sockets s"
  by (simp add: setTimeout_def)

lemma sk_createStream [simp]: "sockets (snd (createStream flt cfg s)) = sockets s"
  by (simp add: createStream_def Let_def split: option.splits)

lemma sk_startStreamIfNeeded [simp]:
  "sockets (snd (startStreamIfNeeded flt s)) = sockets s"
proof -
  obtain r s1 where c: "createStream flt (activeConfig s) s = (r, s1)"
    by (cases "createStream flt (activeConfig s) s")
  then have "sockets s1 = sockets s"
    using sk_createStream[of flt "activeConfig s" s] by simp
  with c show ?thesis by (simp add: startStreamIfNeeded_def split: option.splits)
qed

lemma sk_onConnection [simp]: "sockets (onConnection flt c s) = (sockets s)(c \<mapsto> True)"
  by (simp add: onConnection_def Let_def)

theorem batch_completeness_witness:
  "reachable (\<lambda>n. None) 0 elevenConnected \<and>
   activeClients elevenConnected = elevenClients \<and>
   clientBatches elevenClients = [take 10 elevenClients, [''k'']] \<and>
   length (clientBatches elevenClients) = (11 + 9) div 10 \<and>
   timers (handleNewFrame [1] elevenConnected) =
     timers elevenConnected @ [(clock elevenConnected + 5, Batch 1 (clientBatches elevenClients) [1])] \<and>
   effects (handleNewFrame [1] elevenConnected) =
     effects elevenConnected @ map (\<lambda>c. VolatileStream c [1]) (take 10 elevenClients) \<and>
   effects (processClientBatch 1 (clientBatches elevenClients) [1] elevenConnected) =
     effects elevenConnected @ [VolatileStream ''k'' [1]] \<and>
   timers (processClientBatch 1 (clientBatches elevenClients) [1] elevenConnected) =
     timers elevenConnected \<and>
   fire (\<lambda>n. None) (length (timers elevenConnected)) (handleNewFrame [1] elevenConnected)
     = handleNewFrame [1] elevenConnected \<and>
   fire (\<lambda>n. None) (length (timers elevenConnected))
       ((handleNewFrame [1] elevenConnected)\<lparr>clock := clock elevenConnected + 5\<rparr>)
     = processClientBatch 1 (clientBatches elevenClients) [1]
         ((handleNewFrame [1] elevenConnected)
            \<lparr>clock := clock elevenConnected + 5, timers := timers elevenConnected\<rparr>)"
proof -
  let ?S = elevenConnected
  let ?F = "\<lambda>n::nat. None :: string option"
  let ?bs = "clientBatches elevenClients"
  let ?T = "handleNewFrame [1] ?S"
  let ?k = "length (timers ?S)"
  have r: "reachable ?F 0 ?S"
    unfolding reachable_def elevenConnected_def by (rule exI[of _ "map Connection elevenClients"]) simp
  have ac: "activeClients ?S = elevenClients"
    by (simp add: elevenConnected_def elevenClients_def exec_def ac_step set_add_def startup_def
          createStream_def moduleState_def)
  have cb: "clientBatches elevenClients = [take 10 elevenClients, [''k'']]"
    by (simp add: elevenClients_def clientBatches_def MAX_CLIENTS_PER_FRAME_def)
  have sk: "sendable ?S c" if "c \<in> set elevenClients" for c
    using that by (auto simp add: sendable_def elevenConnected_def elevenClients_def exec_def step_def)
  have f1: "filter (sendable ?S) (take 10 elevenClients) = take 10 elevenClients"
    using sk by (simp add: filter_id_conv) (meson in_set_takeD)
  have f2: "filter (sendable ?S) [''k''] = [''k'']" using sk[of "''k''"] by (simp add: elevenClients_def)
  note bc = batch_completeness[OF r, where f="[1]", unfolded Let_def ac]
  from bc have tm: "timers ?T = timers ?S @ [(clock ?S + 5, Batch 1 ?bs [1])]"
    by (simp add: cb)
  from bc have fr: "\<And>t k i due. k < length (timers t) \<and> timers t ! k = (due, Batch i ?bs [1]) \<Longrightarrow>
       fire ?F k t =
         (if due \<le> clock t
          then processClientBatch i ?bs [1] (t\<lparr>timers := take k (timers t) @ drop (Suc k) (timers t)\<rparr>)
          else t)"
    by blast
  have a: "fire ?F ?k ?T = ?T"
    using fr[of ?k ?T "clock ?S + 5" 1] by (simp add: tm)
  have b: "fire ?F ?k (?T\<lparr>clock := clock ?S + 5\<rparr>)
     = processClientBatch 1 ?bs [1] (?T\<lparr>clock := clock ?S + 5, timers := timers ?S\<rparr>)"
    using fr[of ?k "?T\<lparr>clock := clock ?S + 5\<rparr>" "clock ?S + 5" 1] by (simp add: tm)
  from bc ac cb f1 f2 a b
  show ?thesis using r by simp
qed

section \<open>Recovery after an error of the stream\<close>


lemma onStreamError_timers:
  "timers (onStreamError err s) =
     timers s @ (if activeClients s \<noteq> [] then [(clock s + 5000, Restart)] else [])"
  by (simp add: onStreamError_def Let_def emit_def setTimeout_def)

lemma onStreamError_effects:
  "\<exists>m c. effects (onStreamError err s) = effects s @ [IoStreamError m c]"
  by (simp add: onStreamError_def Let_def emit_def setTimeout_def)

lemma sourceFailed_frame [simp]:
  "timers (sourceFailed s) = timers s" "clock (sourceFailed s) = clock s"
  "effects (sourceFailed s) = effects s"
  by (simp_all add: sourceFailed_def split: option.splits)

text \<open>
  Claim C5 (recovery delay), as the code has it. An error of the stream that reaches the
  handler while at least one client is registered leaves exactly one restart timer, due
  5000 ms later, and does nothing else but tell the clients; with no client it leaves no
  timer. The timer does nothing before it is due. It is never cancelled: when it runs, it
  makes one \<^verbatim>\<open>start\<close> call if a client is registered at that moment, and does nothing
  if none is. Clients that left and came back in between do not prevent the restart.
\<close>

theorem recovery_delay:
  "(attached s \<longrightarrow>
      timers (step flt (StreamError err) s) =
        timers s @ (if activeClients s \<noteq> [] then [(clock s + 5000, Restart)] else []) \<and>
      (\<exists>m c. effectsSince s (step flt (StreamError err) s) = [IoStreamError m c])) \<and>
   (k < length (timers t) \<and> timers t ! k = (due, Restart) \<longrightarrow>
      (clock t < due \<longrightarrow> step flt (Fire k) t = t) \<and>
      (due \<le> clock t \<and> activeClients t = [] \<longrightarrow>
         step flt (Fire k) t = t\<lparr>timers := take k (timers t) @ drop (Suc k) (timers t)\<rparr>) \<and>
      (due \<le> clock t \<and> activeClients t \<noteq> [] \<longrightarrow>
         (\<forall>src. stream t = Some src \<longrightarrow>
            effectsSince t (step flt (Fire k) t) = [Start (src_id src)] \<and>
            timers (step flt (Fire k) t) = take k (timers t) @ drop (Suc k) (timers t))))"
proof -
  have a: "timers (step flt (StreamError err) s) =
        timers s @ (if activeClients s \<noteq> [] then [(clock s + 5000, Restart)] else [])"
    if "attached s"
    using that by (simp add: step_def onStreamError_timers)
  have b: "\<exists>m c. effectsSince s (step flt (StreamError err) s) = [IoStreamError m c]" if "attached s"
    using that onStreamError_effects[of err "sourceFailed s"] by (auto simp add: step_def effectsSince_def)
  have c: "step flt (Fire k) t = t" if "k < length (timers t)" "timers t ! k = (due, Restart)" "clock t < due"
    using that by (simp add: step_def fire_def)
  have d: "step flt (Fire k) t = t\<lparr>timers := take k (timers t) @ drop (Suc k) (timers t)\<rparr>"
    if "k < length (timers t)" "timers t ! k = (due, Restart)" "due \<le> clock t" "activeClients t = []"
    using that by (simp add: step_def fire_def runAction_def restartCallback_def)
  have e: "effectsSince t (step flt (Fire k) t) = [Start (src_id src)] \<and>
            timers (step flt (Fire k) t) = take k (timers t) @ drop (Suc k) (timers t)"
    if "k < length (timers t)" "timers t ! k = (due, Restart)" "due \<le> clock t" "activeClients t \<noteq> []"
       "stream t = Some src" for src
    using that by (simp add: step_def fire_def runAction_def restartCallback_def startStreamIfNeeded_def
          start_call_def effectsSince_def)
  from a b c d e show ?thesis by blast
qed

lemmas handler_defs = onStreamError_def sourceFailed_def fire_def runAction_def restartCallback_def
  errorMessageFor_def refused_def effectsSince_def

text \<open>
  The claim as stated fails: the client count drops to zero before the delay has elapsed
  (client a leaves at time 0), client b connects, and when the timer runs at time 5000 it
  calls \<^verbatim>\<open>start\<close>.
\<close>

theorem recovery_delay_counterexample:
  "activeClients (exec (\<lambda>n. None) [Connection ''a''] (startup 0)) = [''a''] \<and>
   timers (exec (\<lambda>n. None) [Connection ''a'', StreamError refused] (startup 0))
     = [(10000, ResetCounters), (5000, Restart)] \<and>
   activeClients (exec (\<lambda>n. None) [Connection ''a'', StreamError refused, Disconnect ''a''] (startup 0)) = [] \<and>
   clock (exec (\<lambda>n. None) [Connection ''a'', StreamError refused, Disconnect ''a''] (startup 0)) = 0 \<and>
   effectsSince
     (exec (\<lambda>n. None) [Connection ''a'', StreamError refused, Disconnect ''a'', Connection ''b'', Advance 5000] (startup 0))
     (exec (\<lambda>n. None) [Connection ''a'', StreamError refused, Disconnect ''a'', Connection ''b'', Advance 5000, Fire 1] (startup 0))
     = [Start 0]"
  by (simp add: run_defs handler_defs)


theorem recovery_delay_witness:
  "attached (exec (\<lambda>n. None) [Connection ''a''] (startup 0)) \<and>
   timers (step (\<lambda>n. None) (StreamError refused) (exec (\<lambda>n. None) [Connection ''a''] (startup 0)))
     = [(10000, ResetCounters), (5000, Restart)] \<and>
   step (\<lambda>n. None) (Fire 1) (exec (\<lambda>n. None) [Connection ''a'', StreamError refused, Advance 4999] (startup 0))
     = exec (\<lambda>n. None) [Connection ''a'', StreamError refused, Advance 4999] (startup 0) \<and>
   effectsSince (exec (\<lambda>n. None) [Connection ''a'', StreamError refused, Advance 5000] (startup 0))
     (step (\<lambda>n. None) (Fire 1) (exec (\<lambda>n. None) [Connection ''a'', StreamError refused, Advance 5000] (startup 0)))
     = [Start 0] \<and>
   effects (step (\<lambda>n. None) (Fire 1)
       (exec (\<lambda>n. None) [Connection ''a'', StreamError refused, Disconnect ''a'', Advance 5000] (startup 0)))
     = effects (exec (\<lambda>n. None) [Connection ''a'', StreamError refused, Disconnect ''a'', Advance 5000] (startup 0))"
proof -
  let ?F = "\<lambda>n::nat. None :: string option"
  let ?s1 = "exec ?F [Connection ''a''] (startup 0)"
  let ?s2 = "exec ?F [Connection ''a'', StreamError refused, Advance 4999] (startup 0)"
  let ?s3 = "exec ?F [Connection ''a'', StreamError refused, Advance 5000] (startup 0)"
  let ?s4 = "exec ?F [Connection ''a'', StreamError refused, Disconnect ''a'', Advance 5000] (startup 0)"
  have s1: "attached ?s1" "activeClients ?s1 = [''a'']" "timers ?s1 = [(10000, ResetCounters)]" "clock ?s1 = 0"
    by (simp_all add: run_defs)
  have s2: "timers ?s2 = [(10000, ResetCounters), (5000, Restart)]" "clock ?s2 = 4999"
    by (simp_all add: run_defs handler_defs)
  have s3: "timers ?s3 = [(10000, ResetCounters), (5000, Restart)]" "clock ?s3 = 5000"
    "activeClients ?s3 = [''a'']" "src_id (the (stream ?s3)) = 0" "stream ?s3 \<noteq> None"
    by (simp_all add: run_defs handler_defs)
  have s4: "timers ?s4 = [(10000, ResetCounters), (5000, Restart)]" "clock ?s4 = 5000"
    "activeClients ?s4 = []"
    by (simp_all add: run_defs handler_defs)
  from s3 obtain src where src: "stream ?s3 = Some src" "src_id src = 0" by auto
  from recovery_delay[of ?s1 ?F refused 1 ?s2 5000] s1 s2
  have a: "timers (step ?F (StreamError refused) ?s1) = [(10000, ResetCounters), (5000, Restart)]"
    and b: "step ?F (Fire 1) ?s2 = ?s2" by simp_all
  from recovery_delay[of ?s1 ?F refused 1 ?s3 5000] s3 src
  have c: "effectsSince ?s3 (step ?F (Fire 1) ?s3) = [Start 0]" by simp
  from recovery_delay[of ?s1 ?F refused 1 ?s4 5000] s4
  have d: "effects (step ?F (Fire 1) ?s4) = effects ?s4" by simp
  from s1 a b c d show ?thesis by simp
qed

section \<open>The stream runs while clients are present\<close>




lemma update_nofault:
  assumes "nofault flt" "stream s = Some src"
  shows "updateStreamConfig flt u s =
    (Inr (mergeConfig (activeConfig s) u),
     s\<lparr>activeConfig := mergeConfig (activeConfig s) u,
       stream := Some \<lparr>src_id = instances s, src_params = ffmpegParamsOf (mergeConfig (activeConfig s) u),
                       listening = True, running = activeClients s \<noteq> []\<rparr>,
       instances := instances s + 1,
       calls := calls s + (if activeClients s \<noteq> [] then 3 else 2),
       effects := effects s @ [RemoveAllListeners (src_id src), Stop (src_id src),
                    NewFFMpeg (instances s) (ffmpegParamsOf (mergeConfig (activeConfig s) u))]
                  @ (if activeClients s \<noteq> [] then [Start (instances s)] else [])\<rparr>)"
proof -
  have n: "flt k = None" for k using assms(1) by (simp add: nofault_def)
  show ?thesis using assms(2) n
    by (simp add: updateStreamConfig_def createStream_def stop_call_def emit_def Let_def
          startStreamIfNeeded_def start_call_def)
qed


lemma inv_update:
  assumes "nofault flt" "lifecycle_inv s"
  shows "lifecycle_inv (snd (updateStreamConfig flt u s))"
proof -
  from assms(2) obtain src where src: "stream s = Some src" by (auto simp: lifecycle_inv_def)
  show ?thesis using assms(2)
    by (simp add: update_nofault[OF assms(1) src] lifecycle_inv_def sourceRunning_def restartPending_def)
qed



lemma fold_queue_lifecycle [simp]:
  "stream (foldl (\<lambda>st c. queueFrameForClient c f st) s cs) = stream s"
  "activeClients (foldl (\<lambda>st c. queueFrameForClient c f st) s cs) = activeClients s"
  "timers (foldl (\<lambda>st c. queueFrameForClient c f st) s cs) = timers s"
  "clock (foldl (\<lambda>st c. queueFrameForClient c f st) s cs) = clock s"
  by (induction cs arbitrary: s) (simp_all add: queueFrameForClient_def Let_def)











section \<open>Configuration updates\<close>


lemma update_returns:
  assumes "stream s = Some src" "flt (calls s + 1) = None"
  shows "updateStreamConfig flt u s =
    (Inr (mergeConfig (activeConfig s) u),
     s\<lparr>activeConfig := mergeConfig (activeConfig s) u,
       stream := Some \<lparr>src_id = instances s,
                       src_params = ffmpegParamsOf (mergeConfig (activeConfig s) u),
                       listening = True,
                       running = (activeClients s \<noteq> [] \<and> flt (calls s + 2) = None)\<rparr>,
       instances := instances s + 1,
       calls := calls s + (if activeClients s \<noteq> [] then 3 else 2),
       effects := effects s @ [RemoveAllListeners (src_id src), Stop (src_id src),
                    NewFFMpeg (instances s) (ffmpegParamsOf (mergeConfig (activeConfig s) u))]
                  @ (if activeClients s \<noteq> [] then [Start (instances s)] else [])\<rparr>)"
  using assms
  by (cases "flt (calls s)"; cases "flt (calls s + 2)")
     (simp_all add: updateStreamConfig_def createStream_def stop_call_def emit_def Let_def
          startStreamIfNeeded_def start_call_def)


lemma cfg_stop_call [simp]: "activeConfig (stop_call flt s) = activeConfig s"
  by (simp add: stop_call_def split: option.splits)

lemma cfg_start_call [simp]: "activeConfig (start_call flt s) = activeConfig s"
  by (simp add: start_call_def split: option.splits)

lemma cfg_createStream [simp]: "activeConfig (snd (createStream flt cfg s)) = activeConfig s"
  by (simp add: createStream_def Let_def emit_def split: option.splits)

lemma cfg_startStreamIfNeeded [simp]:
  "activeConfig (snd (startStreamIfNeeded flt s)) = activeConfig s"
proof -
  obtain r s1 where c: "createStream flt (activeConfig s) s = (r, s1)"
    by (cases "createStream flt (activeConfig s) s")
  then have "activeConfig s1 = activeConfig s"
    using cfg_createStream[of flt "activeConfig s" s] by simp
  with c show ?thesis by (simp add: startStreamIfNeeded_def split: option.splits)
qed

lemma cfg_updateStreamConfig:
  "activeConfig (snd (updateStreamConfig flt u s)) = mergeConfig (activeConfig s) u"
proof -
  let ?s1 = "s\<lparr>activeConfig := mergeConfig (activeConfig s) u\<rparr>"
  obtain r s2 where c: "createStream flt (activeConfig ?s1) ?s1 = (r, s2)"
    by (cases "createStream flt (activeConfig ?s1) ?s1")
  then have a: "activeConfig s2 = mergeConfig (activeConfig s) u"
    using cfg_createStream[of flt "activeConfig ?s1" ?s1] by simp
  obtain r' s3 where d: "startStreamIfNeeded flt s2 = (r', s3)"
    by (cases "startStreamIfNeeded flt s2")
  then have b: "activeConfig s3 = activeConfig s2"
    using cfg_startStreamIfNeeded[of flt s2] by simp
  from a b c d show ?thesis
    by (simp add: updateStreamConfig_def Let_def split: option.splits)
qed

lemma update_result:
  "fst (updateStreamConfig flt u s) = Inr cfg \<Longrightarrow> cfg = activeConfig (snd (updateStreamConfig flt u s))"
  by (auto simp add: updateStreamConfig_def Let_def split: option.splits prod.splits)

text \<open>
  Claim C10 (merge of a configuration update). \<open>updateStreamConfig\<close> stores the merge of
  the previous configuration and the update, also when the constructor throws afterwards;
  in the merge every schema key the update holds has the update's value, every schema key
  it does not hold keeps the previous value, and the same goes for every key outside the
  schema; the configuration returned, when the function returns, is the stored one; and
  it does return when the constructor does not throw.
\<close>

theorem config_merge:
  "activeConfig (snd (updateStreamConfig flt u s)) = mergeConfig (activeConfig s) u \<and>
   rtspUrl (mergeConfig old u) = (case new_rtspUrl u of None \<Rightarrow> rtspUrl old | Some v \<Rightarrow> v) \<and>
   transport (mergeConfig old u) = (case new_transport u of None \<Rightarrow> transport old | Some v \<Rightarrow> v) \<and>
   frameRate (mergeConfig old u) = (case new_frameRate u of None \<Rightarrow> frameRate old | Some v \<Rightarrow> v) \<and>
   resolution (mergeConfig old u) = (case new_resolution u of None \<Rightarrow> resolution old | Some v \<Rightarrow> v) \<and>
   quality (mergeConfig old u) = (case new_quality u of None \<Rightarrow> quality old | Some v \<Rightarrow> v) \<and>
   port (mergeConfig old u) = (case new_port u of None \<Rightarrow> port old | Some v \<Rightarrow> v) \<and>
   ffmpegOptions (mergeConfig old u)
     = (case new_ffmpegOptions u of None \<Rightarrow> ffmpegOptions old | Some v \<Rightarrow> v) \<and>
   (\<forall>k. extras (mergeConfig old u) k
          = (case new_extras u k of None \<Rightarrow> extras old k | Some v \<Rightarrow> Some v)) \<and>
   (\<forall>cfg. fst (updateStreamConfig flt u s) = Inr cfg \<longrightarrow>
          cfg = activeConfig (snd (updateStreamConfig flt u s))) \<and>
   (\<forall>src. stream s = Some src \<and> flt (calls s + 1) = None \<longrightarrow>
          fst (updateStreamConfig flt u s) = Inr (mergeConfig (activeConfig s) u))"
proof -
  have 1: "\<forall>k. extras (mergeConfig old u) k
          = (case new_extras u k of None \<Rightarrow> extras old k | Some v \<Rightarrow> Some v)"
    by (simp add: mergeConfig_def map_add_def)
  have 2: "\<forall>cfg. fst (updateStreamConfig flt u s) = Inr cfg \<longrightarrow>
          cfg = activeConfig (snd (updateStreamConfig flt u s))"
    using update_result by blast
  have 3: "\<forall>src. stream s = Some src \<and> flt (calls s + 1) = None \<longrightarrow>
          fst (updateStreamConfig flt u s) = Inr (mergeConfig (activeConfig s) u)"
    by (simp add: update_returns)
  have 0: "activeConfig (snd (updateStreamConfig flt u s)) = mergeConfig (activeConfig s) u"
    by (rule cfg_updateStreamConfig)
  have f: "rtspUrl (mergeConfig old u) = (case new_rtspUrl u of None \<Rightarrow> rtspUrl old | Some v \<Rightarrow> v)"
    "transport (mergeConfig old u) = (case new_transport u of None \<Rightarrow> transport old | Some v \<Rightarrow> v)"
    "frameRate (mergeConfig old u) = (case new_frameRate u of None \<Rightarrow> frameRate old | Some v \<Rightarrow> v)"
    "resolution (mergeConfig old u) = (case new_resolution u of None \<Rightarrow> resolution old | Some v \<Rightarrow> v)"
    "quality (mergeConfig old u) = (case new_quality u of None \<Rightarrow> quality old | Some v \<Rightarrow> v)"
    "port (mergeConfig old u) = (case new_port u of None \<Rightarrow> port old | Some v \<Rightarrow> v)"
    "ffmpegOptions (mergeConfig old u)
       = (case new_ffmpegOptions u of None \<Rightarrow> ffmpegOptions old | Some v \<Rightarrow> v)"
    by (simp_all add: mergeConfig_def split: option.splits)
  show ?thesis
    apply (intro conjI)
    apply (rule 0)
    apply (rule f(1))
    apply (rule f(2))
    apply (rule f(3))
    apply (rule f(4))
    apply (rule f(5))
    apply (rule f(6))
    apply (rule f(7))
    apply (rule 1)
    apply (rule 2)
    apply (rule 3)
    done
qed


theorem config_merge_witness:
  "stream (startup 0) = Some \<lparr>src_id = 0, src_params = ffmpegParamsOf defaultConfig,
                               listening = True, running = False\<rparr> \<and>
   fst (updateStreamConfig (\<lambda>n. None) extraUpdate (startup 0))
     = Inr (mergeConfig defaultConfig extraUpdate) \<and>
   activeConfig (snd (updateStreamConfig (\<lambda>n. None) extraUpdate (startup 0)))
     = mergeConfig defaultConfig extraUpdate \<and>
   frameRate (mergeConfig defaultConfig extraUpdate) = 25 \<and>
   rtspUrl (mergeConfig defaultConfig extraUpdate) = ''rtsp://your-rtsp-url'' \<and>
   quality (mergeConfig defaultConfig extraUpdate) = 3 \<and>
   extras (mergeConfig defaultConfig extraUpdate) ''foo'' = Some (JStr ''bar'') \<and>
   extras (mergeConfig defaultConfig extraUpdate) ''baz'' = None"
proof -
  let ?F = "\<lambda>n::nat. None :: string option"
  have s: "stream (startup 0) = Some \<lparr>src_id = 0, src_params = ffmpegParamsOf defaultConfig,
                               listening = True, running = False\<rparr>"
    "activeConfig (startup 0) = defaultConfig"
    by (simp_all add: startup_def createStream_def moduleState_def)
  have u: "new_frameRate extraUpdate = Some 25" "new_rtspUrl extraUpdate = None"
    "new_quality extraUpdate = None" "new_extras extraUpdate ''foo'' = Some (JStr ''bar'')"
    "new_extras extraUpdate ''baz'' = None"
    by (simp_all add: extraUpdate_def noUpdate_def)
  have d: "rtspUrl defaultConfig = ''rtsp://your-rtsp-url''" "quality defaultConfig = 3"
    "extras defaultConfig ''baz'' = None"
    by (simp_all add: defaultConfig_def)
  from config_merge[where flt="?F" and u=extraUpdate and s="startup 0" and old=defaultConfig] s u d
  show ?thesis by simp
qed






section \<open>Statistics\<close>












section \<open>Corrupt units in the player\<close>







end
